theory Spec2Isabelle
  imports Main "HOL-Library.Word"
begin

unbundle bit_operations_syntax

section \<open>Data model of the Rpc endpoint (rpc.h)\<close>

text \<open>
  The header \<^verbatim>\<open>rpc.h\<close> declares the class template \<^verbatim>\<open>Rpc<TTr>\<close> and defines its inline
  datapath helpers. Sizes and counters are \<^verbatim>\<open>size_t\<close>, taken as 64-bit words whose
  arithmetic wraps. A pointer is an optional address, \<open>None\<close> being \<^verbatim>\<open>nullptr\<close>. Objects
  reached through pointers (message buffers, session slots, sessions, packet headers)
  live in stores indexed by address, so that a write through one pointer is seen through
  every alias. An \<^verbatim>\<open>assert\<close> that fails, a thrown \<^verbatim>\<open>runtime_error\<close> and a write
  through a null pointer are error values.
\<close>

type_synonym size_t = "64 word"
type_synonym addr = nat

datatype error = assertion_failed | runtime_error | division_by_zero | null_dereference

text \<open>A \<^verbatim>\<open>Buffer\<close> is the allocator's handle: the start of the chunk and its size class.\<close>

record Buffer =
  buf :: "addr option"
  class_size :: size_t

text \<open>
  A \<^verbatim>\<open>MsgBuffer\<close>: the owning \<^verbatim>\<open>Buffer\<close> (its \<^verbatim>\<open>buf\<close> is null for a fake buffer),
  the sizes and packet counts, the queueing progress, and the payload pointer \<^verbatim>\<open>buf\<close>
  (field \<open>Buffer.buf\<close> is the allocation's, \<open>MsgBuffer.buf\<close> the payload's).
\<close>

record MsgBuffer =
  buffer :: Buffer
  max_data_size :: size_t
  data_size :: size_t
  max_num_pkts :: size_t
  num_pkts :: size_t
  pkts_queued :: size_t
  buf :: "addr option"

datatype PktType = kPktTypeReq | kPktTypeResp | kPktTypeExplCR | kPktTypeReqForResp

record pkthdr_t =
  magic :: "8 word"
  pkt_type :: PktType

datatype Role = kClient | kServer

record Session =
  role :: Role
  credits :: size_t
  sslot_free_vec :: "size_t list"

record SSlot =
  index :: size_t
  tx_msgbuf :: "addr option"
  rx_msgbuf :: MsgBuffer
  session :: "addr option"

text \<open>One entry of the transmit batch. The field \<^verbatim>\<open>drop\<close> of the source is \<open>drop_flag\<close>.\<close>

record tx_burst_item_t =
  routing_info :: "addr option"
  msg_buffer :: "addr option"
  offset :: size_t
  data_bytes :: size_t
  drop_flag :: bool

record faults_t =
  resolve_server_rinfo :: bool
  drop_tx_local :: bool
  drop_tx_local_countdown :: size_t

text \<open>
  The hugepage allocator is an external collaborator. Its state is the history of the
  calls made on it: the sizes handed to \<^verbatim>\<open>alloc\<close> and the buffers handed to \<^verbatim>\<open>free_buf\<close>.
\<close>

record HugeAlloc =
  alloc_log :: "size_t list"
  free_log :: "Buffer list"

text \<open>
  The constants that \<^verbatim>\<open>rpc.h\<close> takes from headers outside the file
  (\<^verbatim>\<open>TTr::kMaxDataPerPkt\<close>, \<^verbatim>\<open>TTr::kPostlist\<close>, \<^verbatim>\<open>sizeof(pkthdr_t)\<close>,
  \<^verbatim>\<open>HugeAlloc::kMaxClassSize\<close>, \<^verbatim>\<open>kMsgSizeBits\<close>, \<^verbatim>\<open>kPktNumBits\<close>,
  \<^verbatim>\<open>Session::kSessionCredits\<close>, \<^verbatim>\<open>kFaultInjection\<close>, the header magic) are parameters,
  as are the calling thread's tiny thread ID, the allocator's answer to an allocation
  request (an exception, or a buffer whose \<^verbatim>\<open>buf\<close> is null when memory ran out) and the
  contents of a default-constructed \<^verbatim>\<open>MsgBuffer\<close>.
\<close>

record env =
  kMaxDataPerPkt :: size_t
  sizeof_pkthdr_t :: size_t
  kMaxClassSize :: size_t
  kMsgSizeBits :: nat
  kPktNumBits :: nat
  kPostlist :: size_t
  kSessionCredits :: size_t
  kFaultInjection :: bool
  kPktHdrMagic :: "8 word"
  get_tiny_tid :: size_t
  alloc_answer :: "HugeAlloc \<Rightarrow> size_t \<Rightarrow> error + Buffer"
  MsgBuffer_default :: MsgBuffer

text \<open>The members of \<^verbatim>\<open>Rpc\<close> that the inline functions read or write, and the stores.\<close>

record Rpc =
  creator_tiny_tid :: size_t
  msgbufs :: "addr \<Rightarrow> MsgBuffer"
  sslots :: "addr \<Rightarrow> SSlot"
  sessions :: "addr \<Rightarrow> Session"
  pkthdrs :: "addr \<Rightarrow> pkthdr_t"
  huge_alloc :: HugeAlloc
  tx_burst_arr :: "nat \<Rightarrow> tx_burst_item_t"
  tx_batch_i :: size_t
  transport_tx :: "tx_burst_item_t list list"
  faults :: faults_t

section \<open>Helpers of the absent headers\<close>

text \<open>Writes through a pointer: the object stored at the address is replaced.\<close>

definition upd_sslot :: "Rpc \<Rightarrow> addr \<Rightarrow> (SSlot \<Rightarrow> SSlot) \<Rightarrow> Rpc" where
  "upd_sslot s sp f = s\<lparr>sslots := (sslots s)(sp := f (sslots s sp))\<rparr>"

definition upd_session :: "Rpc \<Rightarrow> addr \<Rightarrow> (Session \<Rightarrow> Session) \<Rightarrow> Rpc" where
  "upd_session s sn f = s\<lparr>sessions := (sessions s)(sn := f (sessions s sn))\<rparr>"

definition upd_msgbuf :: "Rpc \<Rightarrow> addr \<Rightarrow> (MsgBuffer \<Rightarrow> MsgBuffer) \<Rightarrow> Rpc" where
  "upd_msgbuf s mp f = s\<lparr>msgbufs := (msgbufs s)(mp := f (msgbufs s mp))\<rparr>"

text \<open>
  Modelled from the spec: \<^verbatim>\<open>Session::is_client\<close> (session.h is not among the sources).
  The role of a session is either client or server.
\<close>

definition is_client :: "Session \<Rightarrow> bool" where
  "is_client sn = (role sn = kClient)"

text \<open>
  Modelled from the spec: \<^verbatim>\<open>MsgBuffer::is_dynamic\<close> (msg_buffer.h is not among the
  sources). A dynamic buffer owns its allocation; the comments in \<^verbatim>\<open>bury_sslot_tx_msgbuf\<close>
  say that a buffer used dynamic allocation if its \<^verbatim>\<open>buffer.buf\<close> is non-null.
\<close>

definition is_dynamic :: "MsgBuffer \<Rightarrow> bool" where
  "is_dynamic m = (Buffer.buf (buffer m) \<noteq> None)"

text \<open>
  Modelled from the spec: the zeroth packet header of a \<^verbatim>\<open>MsgBuffer\<close>, the header slot
  that leads the payload, and the checks \<^verbatim>\<open>check_magic\<close>, \<^verbatim>\<open>is_expl_cr\<close> and
  \<^verbatim>\<open>is_req_for_resp\<close> that read it (msg_buffer.h and pkthdr.h are not among the sources).
\<close>

definition get_pkthdr_0 :: "env \<Rightarrow> Rpc \<Rightarrow> MsgBuffer \<Rightarrow> pkthdr_t option" where
  "get_pkthdr_0 e s m =
     (case MsgBuffer.buf m of
        None \<Rightarrow> None
      | Some a \<Rightarrow> Some (pkthdrs s (a - unat (sizeof_pkthdr_t e))))"

definition check_magic :: "env \<Rightarrow> Rpc \<Rightarrow> MsgBuffer \<Rightarrow> bool" where
  "check_magic e s m =
     (case get_pkthdr_0 e s m of None \<Rightarrow> False | Some h \<Rightarrow> magic h = kPktHdrMagic e)"

definition is_expl_cr :: "env \<Rightarrow> Rpc \<Rightarrow> MsgBuffer \<Rightarrow> bool" where
  "is_expl_cr e s m =
     (case get_pkthdr_0 e s m of None \<Rightarrow> False | Some h \<Rightarrow> pkt_type h = kPktTypeExplCR)"

definition is_req_for_resp :: "env \<Rightarrow> Rpc \<Rightarrow> MsgBuffer \<Rightarrow> bool" where
  "is_req_for_resp e s m =
     (case get_pkthdr_0 e s m of None \<Rightarrow> False | Some h \<Rightarrow> pkt_type h = kPktTypeReqForResp)"

text \<open>
  Modelled from the spec: the constructor \<^verbatim>\<open>MsgBuffer(buffer, max_data_size, max_num_pkts)\<close>
  (msg_buffer.h is not among the sources). The payload is bracketed by one leading
  header slot and one header slot per further packet, so the payload pointer is the
  start of the allocation offset past the leading header slot; the zeroth header, at the
  start of the allocation, carries the magic constant after allocation. A buffer is
  constructed over an allocation only: there is no header to write at a null start, and
  the write is a null dereference. Fields the spec does not determine keep the contents
  of a default-constructed buffer.
\<close>

definition MsgBuffer_ctor ::
    "env \<Rightarrow> Rpc \<Rightarrow> Buffer \<Rightarrow> size_t \<Rightarrow> size_t \<Rightarrow> error + (MsgBuffer \<times> Rpc)" where
  "MsgBuffer_ctor e s b max_data max_pkts =
     (case Buffer.buf b of
        None \<Rightarrow> Inl null_dereference
      | Some a \<Rightarrow> Inr ((MsgBuffer_default e)\<lparr>buffer := b, max_data_size := max_data,
                   data_size := max_data, max_num_pkts := max_pkts, num_pkts := max_pkts,
                   MsgBuffer.buf := Some (a + unat (sizeof_pkthdr_t e))\<rparr>,
                  s\<lparr>pkthdrs := (pkthdrs s)(a := (pkthdrs s a)\<lparr>magic := kPktHdrMagic e\<rparr>)\<rparr>))"

text \<open>
  Modelled from the spec: the allocator's \<^verbatim>\<open>alloc(bytes)\<close> and \<^verbatim>\<open>free_buf(handle)\<close>
  (util/huge_alloc.h is not among the sources). What \<^verbatim>\<open>alloc\<close> answers is the parameter
  \<open>alloc_answer\<close>; each call is recorded in the allocator's history.
\<close>

definition HugeAlloc_alloc :: "env \<Rightarrow> HugeAlloc \<Rightarrow> size_t \<Rightarrow> (error + Buffer) \<times> HugeAlloc" where
  "HugeAlloc_alloc e h sz = (alloc_answer e h sz, h\<lparr>alloc_log := alloc_log h @ [sz]\<rparr>)"

definition free_buf :: "HugeAlloc \<Rightarrow> Buffer \<Rightarrow> HugeAlloc" where
  "free_buf h b = h\<lparr>free_log := free_log h @ [b]\<rparr>"

text \<open>
  Modelled from the spec: the transport's \<^verbatim>\<open>tx_burst(items, n)\<close> (transport.h is not
  among the sources). The first \<open>n\<close> entries of the array are handed over as one burst,
  in order; the array is left as it is.
\<close>

definition tx_burst :: "tx_burst_item_t list list \<Rightarrow> (nat \<Rightarrow> tx_burst_item_t) \<Rightarrow> size_t
    \<Rightarrow> tx_burst_item_t list list" where
  "tx_burst tr arr n = tr @ [map arr [0..<unat n]]"

section \<open>Constants of the class\<close>

text \<open>\<^verbatim>\<open>kMaxMsgSize\<close>, in \<^verbatim>\<open>size_t\<close> arithmetic as the constant expression is written.\<close>

definition kMaxMsgSize :: "env \<Rightarrow> size_t" where
  "kMaxMsgSize e =
     kMaxClassSize e - ((kMaxClassSize e div kMaxDataPerPkt e) * sizeof_pkthdr_t e)"

text \<open>
  The two \<^verbatim>\<open>static_assert\<close>s that follow the constant. The class compiles only if both
  hold; a constant expression that divides by zero or shifts \<^verbatim>\<open>1ull\<close> by 64 or more is
  rejected as well. The product in the second assertion is a 64-bit product.
\<close>

definition Rpc_static_asserts :: "env \<Rightarrow> bool" where
  "Rpc_static_asserts e =
     (kMaxDataPerPkt e \<noteq> 0 \<and> kMsgSizeBits e < 64 \<and> kPktNumBits e < 64
      \<and> push_bit (kMsgSizeBits e) (1 :: size_t) \<ge> kMaxMsgSize e
      \<and> push_bit (kPktNumBits e) (1 :: size_t) * kMaxDataPerPkt e \<ge> kMaxMsgSize e)"

section \<open>Misc private functions\<close>

text \<open>
  \<^verbatim>\<open>in_creator()\<close>: the caller's tiny thread ID is the creator's. The model follows one
  thread, whose ID is the parameter \<open>get_tiny_tid\<close>; the conditional locks guard
  against other threads and have no counterpart here.
\<close>

definition in_creator :: "env \<Rightarrow> Rpc \<Rightarrow> bool" where
  "in_creator e s = (get_tiny_tid e = creator_tiny_tid s)"

section \<open>MsgBuffer management\<close>

text \<open>
  Parameters that share their name with a field are shortened: \<open>max_data\<close> for
  \<^verbatim>\<open>max_data_size\<close>, \<open>rinfo\<close> for \<^verbatim>\<open>routing_info\<close>, \<open>txm\<close> for \<^verbatim>\<open>tx_msgbuf\<close>,
  \<open>off\<close> for \<^verbatim>\<open>offset\<close>, \<open>dbytes\<close> for \<^verbatim>\<open>data_bytes\<close>.
\<close>

text \<open>
  \<^verbatim>\<open>alloc_msg_buffer(max_data_size)\<close>. The result is the returned \<^verbatim>\<open>MsgBuffer\<close>, or the
  exception of the allocator, together with the state the call leaves behind. The
  division of the second branch traps when \<^verbatim>\<open>kMaxDataPerPkt\<close> is zero.
\<close>

definition alloc_msg_buffer :: "env \<Rightarrow> Rpc \<Rightarrow> size_t \<Rightarrow> (error + MsgBuffer) \<times> Rpc" where
  "alloc_msg_buffer e s max_data =
     (case (if max_data \<le> kMaxDataPerPkt e then Inr 1
            else if kMaxDataPerPkt e = 0 then Inl division_by_zero
            else Inr ((max_data + (kMaxDataPerPkt e - 1)) div kMaxDataPerPkt e)) of
        Inl err \<Rightarrow> (Inl err, s)
      | Inr max_pkts \<Rightarrow>
          (case HugeAlloc_alloc e (huge_alloc s) (max_data + (max_pkts * sizeof_pkthdr_t e)) of
             (Inl err, h) \<Rightarrow> (Inl err, s\<lparr>huge_alloc := h\<rparr>)
           | (Inr b, h) \<Rightarrow>
               if Buffer.buf b = None
               then (Inr ((MsgBuffer_default e)\<lparr>MsgBuffer.buf := None\<rparr>), s\<lparr>huge_alloc := h\<rparr>)
               else (case MsgBuffer_ctor e (s\<lparr>huge_alloc := h\<rparr>) b max_data max_pkts of
                       Inl err \<Rightarrow> (Inl err, s\<lparr>huge_alloc := h\<rparr>)
                     | Inr (m, s1) \<Rightarrow> (Inr m, s1))))"

text \<open>\<^verbatim>\<open>free_msg_buffer(msg_buffer)\<close>: the buffer is passed by value.\<close>

definition free_msg_buffer :: "env \<Rightarrow> Rpc \<Rightarrow> MsgBuffer \<Rightarrow> error + Rpc" where
  "free_msg_buffer e s m =
     (if \<not> (is_dynamic m \<and> check_magic e s m) then Inl assertion_failed
      else Inr (s\<lparr>huge_alloc := free_buf (huge_alloc s) (buffer m)\<rparr>))"

text \<open>\<^verbatim>\<open>bury_sslot_tx_msgbuf(sslot)\<close>.\<close>

definition bury_sslot_tx_msgbuf :: "env \<Rightarrow> Rpc \<Rightarrow> addr option \<Rightarrow> error + Rpc" where
  "bury_sslot_tx_msgbuf e s sslot =
     (case sslot of
        None \<Rightarrow> Inl assertion_failed
      | Some sp \<Rightarrow>
          (case (case tx_msgbuf (sslots s sp) of
                   None \<Rightarrow> Inr s
                 | Some mp \<Rightarrow>
                     if is_dynamic (msgbufs s mp)
                     then (if \<not> (MsgBuffer.buf (msgbufs s mp) \<noteq> None
                                 \<and> check_magic e s (msgbufs s mp))
                           then Inl assertion_failed
                           else free_msg_buffer e s (msgbufs s mp))
                     else Inr s) of
             Inl err \<Rightarrow> Inl err
           | Inr s1 \<Rightarrow> Inr (upd_sslot s1 sp (\<lambda>x. x\<lparr>tx_msgbuf := None\<rparr>))))"

text \<open>\<^verbatim>\<open>bury_sslot_tx_msgbuf_nofree(sslot)\<close>.\<close>

definition bury_sslot_tx_msgbuf_nofree :: "Rpc \<Rightarrow> addr option \<Rightarrow> error + Rpc" where
  "bury_sslot_tx_msgbuf_nofree s sslot =
     (case sslot of
        None \<Rightarrow> Inl assertion_failed
      | Some sp \<Rightarrow> Inr (upd_sslot s sp (\<lambda>x. x\<lparr>tx_msgbuf := None\<rparr>)))"

text \<open>\<^verbatim>\<open>bury_sslot_rx_msgbuf(sslot)\<close>: the RX buffer is a member of the slot.\<close>

definition bury_sslot_rx_msgbuf :: "env \<Rightarrow> Rpc \<Rightarrow> addr option \<Rightarrow> error + Rpc" where
  "bury_sslot_rx_msgbuf e s sslot =
     (case sslot of
        None \<Rightarrow> Inl assertion_failed
      | Some sp \<Rightarrow>
          (case (let rx = rx_msgbuf (sslots s sp) in
                 if is_dynamic rx
                 then (if \<not> (MsgBuffer.buf rx \<noteq> None \<and> check_magic e s rx)
                       then Inl assertion_failed
                       else (case free_msg_buffer e s rx of
                               Inl err \<Rightarrow> Inl err
                             | Inr s1 \<Rightarrow>
                                 Inr (upd_sslot s1 sp (\<lambda>x. x\<lparr>rx_msgbuf :=
                                        (rx_msgbuf x)\<lparr>buffer :=
                                           (buffer (rx_msgbuf x))\<lparr>Buffer.buf := None\<rparr>\<rparr>\<rparr>))))
                 else Inr s) of
             Inl err \<Rightarrow> Inl err
           | Inr s2 \<Rightarrow>
               Inr (upd_sslot s2 sp (\<lambda>x. x\<lparr>rx_msgbuf :=
                      (rx_msgbuf x)\<lparr>MsgBuffer.buf := None\<rparr>\<rparr>))))"

text \<open>\<^verbatim>\<open>bury_sslot_rx_msgbuf_nofree(sslot)\<close>.\<close>

definition bury_sslot_rx_msgbuf_nofree :: "Rpc \<Rightarrow> addr option \<Rightarrow> error + Rpc" where
  "bury_sslot_rx_msgbuf_nofree s sslot =
     (case sslot of
        None \<Rightarrow> Inl assertion_failed
      | Some sp \<Rightarrow>
          if is_dynamic (rx_msgbuf (sslots s sp)) then Inl assertion_failed
          else Inr (upd_sslot s sp (\<lambda>x. x\<lparr>rx_msgbuf :=
                      (rx_msgbuf x)\<lparr>MsgBuffer.buf := None\<rparr>\<rparr>)))"

section \<open>Datapath\<close>

text \<open>\<^verbatim>\<open>release_respone(resp_handle)\<close>: the handle is the slot.\<close>

definition release_respone :: "env \<Rightarrow> Rpc \<Rightarrow> addr option \<Rightarrow> error + Rpc" where
  "release_respone e s resp_handle =
     (case resp_handle of
        None \<Rightarrow> Inl assertion_failed
      | Some sp \<Rightarrow>
          if tx_msgbuf (sslots s sp) \<noteq> None then Inl assertion_failed
          else if \<not> (MsgBuffer.buf (rx_msgbuf (sslots s sp)) \<noteq> None
                      \<and> check_magic e s (rx_msgbuf (sslots s sp)))
          then Inl assertion_failed
          else (case bury_sslot_rx_msgbuf e s (Some sp) of
                  Inl err \<Rightarrow> Inl err
                | Inr s1 \<Rightarrow>
                    (case session (sslots s1 sp) of
                       None \<Rightarrow> Inl assertion_failed
                     | Some sn \<Rightarrow>
                         if \<not> is_client (sessions s1 sn) then Inl assertion_failed
                         else Inr (upd_session s1 sn (\<lambda>x. x\<lparr>sslot_free_vec :=
                                     sslot_free_vec x @ [index (sslots s1 sp)]\<rparr>)))))"

text \<open>
  \<^verbatim>\<open>enqueue_pkt_tx_burst_st(routing_info, tx_msgbuf, offset, data_bytes)\<close>. The item is
  the entry of the batch array at \<^verbatim>\<open>tx_batch_i\<close>; the fault-injection block decides its
  drop flag; then the queueing progress of the buffer and the batch index advance, and a
  full batch is handed to the transport.
\<close>

definition enqueue_pkt_tx_burst_st ::
    "env \<Rightarrow> Rpc \<Rightarrow> addr option \<Rightarrow> addr option \<Rightarrow> size_t \<Rightarrow> size_t \<Rightarrow> error + Rpc" where
  "enqueue_pkt_tx_burst_st e s rinfo txm off dbytes =
     (if \<not> in_creator e s then Inl assertion_failed
      else case txm of
        None \<Rightarrow> Inl assertion_failed
      | Some mp \<Rightarrow>
          if rinfo = None then Inl assertion_failed
          else if \<not> tx_batch_i s < kPostlist e then Inl assertion_failed
          else
            let i = unat (tx_batch_i s);
                item = (tx_burst_arr s i)\<lparr>routing_info := rinfo, msg_buffer := txm,
                         offset := off, data_bytes := dbytes\<rparr>;
                f = faults s
            in case (if kFaultInjection e
                     then (if drop_tx_local f \<and> drop_tx_local_countdown f = 0
                           then Inr (item\<lparr>drop_flag := True\<rparr>, f\<lparr>drop_tx_local := False\<rparr>)
                           else if drop_tx_local f
                           then (if \<not> drop_tx_local_countdown f > 0 then Inl assertion_failed
                                 else Inr (item\<lparr>drop_flag := False\<rparr>,
                                           f\<lparr>drop_tx_local_countdown :=
                                               drop_tx_local_countdown f - 1\<rparr>))
                           else Inr (item\<lparr>drop_flag := False\<rparr>, f))
                     else (if drop_flag item then Inl assertion_failed else Inr (item, f))) of
                 Inl err \<Rightarrow> Inl err
               | Inr (item1, f1) \<Rightarrow>
                   let s1 = (upd_msgbuf s mp (\<lambda>m. m\<lparr>pkts_queued := pkts_queued m + 1\<rparr>))
                              \<lparr>tx_burst_arr := (tx_burst_arr s)(i := item1), faults := f1,
                               tx_batch_i := tx_batch_i s + 1\<rparr>
                   in if tx_batch_i s1 = kPostlist e
                      then Inr (s1\<lparr>transport_tx :=
                                     tx_burst (transport_tx s1) (tx_burst_arr s1) (kPostlist e),
                                   tx_batch_i := 0\<rparr>)
                      else Inr s1)"

text \<open>\<^verbatim>\<open>tx_burst_now_st(routing_info, tx_msgbuf)\<close>: a header-only packet, sent right now.\<close>

definition tx_burst_now_st :: "env \<Rightarrow> Rpc \<Rightarrow> addr option \<Rightarrow> addr option \<Rightarrow> error + Rpc" where
  "tx_burst_now_st e s rinfo txm =
     (if \<not> in_creator e s then Inl assertion_failed
      else case txm of
        None \<Rightarrow> Inl assertion_failed
      | Some mp \<Rightarrow>
          if rinfo = None then Inl assertion_failed
          else if \<not> tx_batch_i s < kPostlist e then Inl assertion_failed
          else if \<not> (is_expl_cr e s (msgbufs s mp) \<or> is_req_for_resp e s (msgbufs s mp))
          then Inl assertion_failed
          else
            let i = unat (tx_batch_i s);
                item = (tx_burst_arr s i)\<lparr>routing_info := rinfo, msg_buffer := txm,
                         offset := 0, data_bytes := 0\<rparr>;
                s1 = s\<lparr>tx_burst_arr := (tx_burst_arr s)(i := item),
                       tx_batch_i := tx_batch_i s + 1\<rparr>
            in Inr (s1\<lparr>transport_tx :=
                          tx_burst (transport_tx s1) (tx_burst_arr s1) (tx_batch_i s1),
                        tx_batch_i := 0\<rparr>))"

section \<open>Receive path: credits\<close>

text \<open>
  \<^verbatim>\<open>bump_credits(Session *session)\<close>: two assertions, then \<^verbatim>\<open>session->credits++\<close>.
  The session is the one stored at address \<open>sp\<close>.
\<close>

definition bump_credits :: "env \<Rightarrow> Rpc \<Rightarrow> addr \<Rightarrow> error + Rpc" where
  "bump_credits e s sp =
     (if \<not> is_client (sessions s sp) then Inl assertion_failed
      else if \<not> credits (sessions s sp) < kSessionCredits e then Inl assertion_failed
      else Inr (upd_session s sp (\<lambda>x. x\<lparr>credits := credits x + 1\<rparr>)))"

section \<open>Fault injection\<close>

text \<open>
  Modelled from the spec: \<^verbatim>\<open>fault_inject_drop_tx_local_st(pkt_countdown)\<close>, declared in
  \<^verbatim>\<open>rpc.h\<close> and defined in a file that is not among the sources. It is guarded by a runtime
  check (fault injection enabled, caller is the creator thread), throws
  \<^verbatim>\<open>runtime_error\<close> when the caller cannot inject faults, and arms the drop of one locally
  transmitted packet after \<open>pkt_countdown\<close> packets.
\<close>

definition fault_inject_drop_tx_local_st :: "env \<Rightarrow> Rpc \<Rightarrow> size_t \<Rightarrow> error + Rpc" where
  "fault_inject_drop_tx_local_st e s pkt_countdown =
     (if \<not> (kFaultInjection e \<and> in_creator e s) then Inl runtime_error
      else Inr (s\<lparr>faults := (faults s)\<lparr>drop_tx_local := True,
                                       drop_tx_local_countdown := pkt_countdown\<rparr>\<rparr>))"

section \<open>Observations used to state the properties\<close>

text \<open>What a batch entry says about its packet, apart from the drop flag.\<close>

definition pkt_of_item :: "tx_burst_item_t \<Rightarrow> addr option \<times> addr option \<times> size_t \<times> size_t" where
  "pkt_of_item it = (routing_info it, msg_buffer it, offset it, data_bytes it)"

text \<open>
  Every packet the endpoint has accepted for transmission, in order: the bursts already
  handed to the transport, then the entries still deferred in the batch array.
\<close>

definition tx_stream :: "Rpc \<Rightarrow> tx_burst_item_t list" where
  "tx_stream s = concat (transport_tx s) @ map (tx_burst_arr s) [0..<unat (tx_batch_i s)]"

text \<open>A run of calls to \<^verbatim>\<open>enqueue_pkt_tx_burst_st\<close>, one per packet, stopping at an error.\<close>

fun enqueue_pkts ::
    "env \<Rightarrow> Rpc \<Rightarrow> (addr option \<times> addr option \<times> size_t \<times> size_t) list \<Rightarrow> error + Rpc" where
  "enqueue_pkts e s [] = Inr s"
| "enqueue_pkts e s ((rinfo, txm, off, dbytes) # ps) =
     (case enqueue_pkt_tx_burst_st e s rinfo txm off dbytes of
        Inl err \<Rightarrow> Inl err
      | Inr s1 \<Rightarrow> enqueue_pkts e s1 ps)"

text \<open>
  A run of calls on the transmit path, data packets and header-only control packets in any
  order, stopping at an error. It returns, for each enqueued data packet in order, the
  drop flag that the call wrote into its batch entry.
\<close>

datatype tx_call =
    Enqueue "addr option" "addr option" size_t size_t
  | BurstNow "addr option" "addr option"

fun tx_calls :: "env \<Rightarrow> Rpc \<Rightarrow> tx_call list \<Rightarrow> error + (bool list \<times> Rpc)" where
  "tx_calls e s [] = Inr ([], s)"
| "tx_calls e s (Enqueue rinfo txm off dbytes # cs) =
     (case enqueue_pkt_tx_burst_st e s rinfo txm off dbytes of
        Inl err \<Rightarrow> Inl err
      | Inr s1 \<Rightarrow>
          (case tx_calls e s1 cs of
             Inl err \<Rightarrow> Inl err
           | Inr (ds, s2) \<Rightarrow> Inr (drop_flag (tx_burst_arr s1 (unat (tx_batch_i s))) # ds, s2)))"
| "tx_calls e s (BurstNow rinfo txm # cs) =
     (case tx_burst_now_st e s rinfo txm of
        Inl err \<Rightarrow> Inl err
      | Inr s1 \<Rightarrow> tx_calls e s1 cs)"

text \<open>
  What the fault-injection block of \<^verbatim>\<open>enqueue_pkt_tx_burst_st\<close> does to the fault
  state when fault injection is compiled in.
\<close>

definition faults_step :: "faults_t \<Rightarrow> faults_t" where
  "faults_step f =
     (if drop_tx_local f \<and> drop_tx_local_countdown f = 0 then f\<lparr>drop_tx_local := False\<rparr>
      else if drop_tx_local f
      then f\<lparr>drop_tx_local_countdown := drop_tx_local_countdown f - 1\<rparr>
      else f)"

text \<open>
  The spec's \<open>ceil(p / kMaxDataPerPkt)\<close> on natural numbers, and the number of header
  slots of a buffer for \<open>p\<close> bytes: one per packet, and one for an empty payload too.
\<close>

definition ceil_div :: "nat \<Rightarrow> nat \<Rightarrow> nat" where
  "ceil_div a b = (if a mod b = 0 then a div b else a div b + 1)"

definition hdr_slots :: "env \<Rightarrow> size_t \<Rightarrow> nat" where
  "hdr_slots e p = max 1 (ceil_div (unat p) (unat (kMaxDataPerPkt e)))"

section \<open>A concrete endpoint\<close>

text \<open>
  A small configuration on which the functions can be run: packets carry 1024 bytes of
  data, headers are 16 bytes, a batch holds two packets, fault injection is compiled in.
  The toy allocator refuses requests beyond 8 MiB with an exception and runs out of
  memory at the third request. The endpoint has one client session (address 1) with two
  slots: slot 1 holds a dynamic response buffer and no request buffer, slot 2 holds a
  fake response buffer and points to the dynamic request buffer at address 1. The buffer
  at address 2 is a fake buffer whose header is an explicit credit return.
\<close>

definition ex_default_msgbuf :: MsgBuffer where
  "ex_default_msgbuf =
     \<lparr>buffer = \<lparr>Buffer.buf = None, class_size = 0\<rparr>, max_data_size = 0, data_size = 0,
      max_num_pkts = 0, num_pkts = 0, pkts_queued = 0, MsgBuffer.buf = None\<rparr>"

definition ex_alloc :: "HugeAlloc \<Rightarrow> size_t \<Rightarrow> error + Buffer" where
  "ex_alloc h sz =
     (if 8388608 < sz then Inl runtime_error
      else if 2 \<le> length (alloc_log h) then Inr \<lparr>Buffer.buf = None, class_size = 0\<rparr>
      else Inr \<lparr>Buffer.buf = Some (65536 * (1 + length (alloc_log h))), class_size = sz\<rparr>)"

definition ex_env :: env where
  "ex_env =
     \<lparr>kMaxDataPerPkt = 1024, sizeof_pkthdr_t = 16, kMaxClassSize = 8388608,
      kMsgSizeBits = 24, kPktNumBits = 13, kPostlist = 2, kSessionCredits = 8,
      kFaultInjection = True, kPktHdrMagic = 11, get_tiny_tid = 0,
      alloc_answer = ex_alloc, MsgBuffer_default = ex_default_msgbuf\<rparr>"

definition ex_hdr :: "PktType \<Rightarrow> pkthdr_t" where
  "ex_hdr t = \<lparr>magic = 11, pkt_type = t\<rparr>"

definition ex_msgbuf :: "addr option \<Rightarrow> addr \<Rightarrow> MsgBuffer" where
  "ex_msgbuf owner a =
     \<lparr>buffer = \<lparr>Buffer.buf = owner, class_size = 2048\<rparr>, max_data_size = 64, data_size = 64,
      max_num_pkts = 1, num_pkts = 1, pkts_queued = 0, MsgBuffer.buf = Some (a + 16)\<rparr>"

definition ex_rpc :: Rpc where
  "ex_rpc =
     \<lparr>creator_tiny_tid = 0,
      msgbufs = (\<lambda>_. ex_default_msgbuf)
         (1 := ex_msgbuf (Some 12288) 12288, 2 := ex_msgbuf None 16384),
      sslots = (\<lambda>_. \<lparr>index = 0, tx_msgbuf = None, rx_msgbuf = ex_default_msgbuf, session = None\<rparr>)
         (1 := \<lparr>index = 3, tx_msgbuf = None, rx_msgbuf = ex_msgbuf (Some 4096) 4096,
                session = Some 1\<rparr>,
          2 := \<lparr>index = 5, tx_msgbuf = Some 1, rx_msgbuf = ex_msgbuf None 8192,
                session = Some 1\<rparr>),
      sessions = (\<lambda>_. \<lparr>role = kServer, credits = 0, sslot_free_vec = []\<rparr>)
         (1 := \<lparr>role = kClient, credits = 7, sslot_free_vec = [0, 1]\<rparr>),
      pkthdrs = (\<lambda>_. \<lparr>magic = 0, pkt_type = kPktTypeReq\<rparr>)
         (4096 := ex_hdr kPktTypeResp, 8192 := ex_hdr kPktTypeResp,
          12288 := ex_hdr kPktTypeReq, 16384 := ex_hdr kPktTypeExplCR),
      huge_alloc = \<lparr>alloc_log = [], free_log = []\<rparr>,
      tx_burst_arr = (\<lambda>_. \<lparr>routing_info = None, msg_buffer = None, offset = 0,
                            data_bytes = 0, drop_flag = False\<rparr>),
      tx_batch_i = 0, transport_tx = [],
      faults = \<lparr>resolve_server_rinfo = False, drop_tx_local = False,
                drop_tx_local_countdown = 0\<rparr>\<rparr>"

text \<open>
  States reached from this endpoint: one data packet deferred in the batch; the local
  drop armed with countdown 0 and with countdown 1; two packets sent after arming with
  countdown 0, which leaves a set drop flag in entry 0 of the batch array; and the
  allocator after two requests, out of memory.
\<close>

definition ex_pkt :: "addr option \<times> addr option \<times> size_t \<times> size_t" where
  "ex_pkt = (Some 7, Some 1, 0, 64)"

definition ex_rpc_deferred :: Rpc where
  "ex_rpc_deferred = projr (enqueue_pkt_tx_burst_st ex_env ex_rpc (Some 7) (Some 1) 0 64)"

definition ex_rpc_armed0 :: Rpc where
  "ex_rpc_armed0 = projr (fault_inject_drop_tx_local_st ex_env ex_rpc 0)"

definition ex_rpc_armed1 :: Rpc where
  "ex_rpc_armed1 = projr (fault_inject_drop_tx_local_st ex_env ex_rpc 1)"

definition ex_rpc_stale :: Rpc where
  "ex_rpc_stale = projr (enqueue_pkts ex_env ex_rpc_armed0 [ex_pkt, ex_pkt])"

definition ex_rpc_full :: Rpc where
  "ex_rpc_full = ex_rpc\<lparr>huge_alloc := \<lparr>alloc_log = [3264, 80], free_log = []\<rparr>\<rparr>"

section \<open>Properties\<close>

text \<open>
  The assertions of the source are error results of the model, so a theorem that assumes
  what a function asserts and concludes that the call succeeds holds for the build with
  assertions; the build without them takes the same path under the same assumptions.
\<close>

subsection \<open>Arithmetic of sizes\<close>

lemma unat_succ_below: "(i :: size_t) < k \<Longrightarrow> unat (i + 1) = Suc (unat i)"
proof -
  assume a: "i < k"
  have "unat i < unat k"
    using a by (simp add: word_less_nat_alt)
  moreover have "unat k < 2 ^ 64"
    using unsigned_less [of k, where ?'a = nat] by simp
  ultimately have "unat i + unat (1 :: size_t) < 2 ^ LENGTH(64)"
    by simp
  then show ?thesis
    using unat_add_lem [of i 1] by simp
qed

lemma request_size_unat:
  fixes p n h :: size_t
  assumes "unat p + unat n * unat h < 2 ^ 64"
  shows "unat (p + n * h) = unat p + unat n * unat h"
proof -
  have "unat n * unat h < 2 ^ LENGTH(64)"
    using assms by simp
  then have m: "unat (n * h) = unat n * unat h"
    using unat_mult_lem [of n h] by simp
  then have "unat p + unat (n * h) < 2 ^ LENGTH(64)"
    using assms by simp
  then show ?thesis
    using unat_add_lem [of p "n * h"] m by simp
qed

lemma unat_shift_one:
  assumes "n < 64"
  shows "unat (push_bit n (1 :: size_t)) = 2 ^ n"
proof -
  have lt: "(2 :: nat) ^ n < 2 ^ 64"
    using assms by (rule power_strict_increasing) simp
  have "unat (push_bit n (1 :: size_t)) = take_bit LENGTH(64) (push_bit n (unat (1 :: size_t)))"
    by (rule unsigned_push_bit_eq)
  also have "\<dots> = take_bit 64 ((2 :: nat) ^ n)"
    by (simp add: push_bit_eq_mult)
  also have "\<dots> = 2 ^ n"
    using lt by (rule take_bit_nat_eq_self)
  finally show ?thesis .
qed

lemma unat_mult_le: "unat (a * b) \<le> unat a * unat b" for a b :: size_t
  by (simp add: unat_word_ariths)

lemma ceil_div_least:
  assumes "0 < b"
  shows "a \<le> ceil_div a b * b \<and> (\<forall>n. a \<le> n * b \<longrightarrow> ceil_div a b \<le> n)"
proof (cases "a mod b = 0")
  case True
  then have eq: "a div b * b = a"
    by auto
  have "a div b \<le> n" if "a \<le> n * b" for n
    using that assms div_le_mono [of a "n * b" b] by simp
  with True eq show ?thesis
    by (simp add: ceil_div_def)
next
  case False
  have lt: "a div b * b < a"
    using False by (metis div_mult_mod_eq less_add_same_cancel1 neq0_conv)
  have up: "a < (a div b + 1) * b"
    using assms dividend_less_div_times [of b a] by (simp add: algebra_simps)
  have "a div b + 1 \<le> n" if "a \<le> n * b" for n
  proof (rule ccontr)
    assume "\<not> a div b + 1 \<le> n"
    then have "n \<le> a div b" by simp
    then have "n * b \<le> a div b * b" by simp
    with lt that show False by simp
  qed
  with False up show ?thesis
    by (simp add: ceil_div_def)
qed

lemma round_up_div:
  assumes "0 < (k::nat)"
  shows "(p + (k - 1)) div k = ceil_div p k"
proof -
  define q r where "q = p div k" and "r = p mod k"
  have p: "p = r + q * k" and r: "r < k"
    using assms by (simp_all add: q_def r_def)
  have k: "k \<noteq> 0"
    using assms by simp
  show ?thesis
  proof (cases "r = 0")
    case True
    have "p + (k - 1) = (k - 1) + q * k"
      using p True by simp
    then have "(p + (k - 1)) div k = ((k - 1) + q * k) div k"
      by (rule arg_cong)
    also have "\<dots> = q + (k - 1) div k"
      by (rule div_mult_self1 [OF k])
    also have "\<dots> = q"
      using assms by simp
    finally show ?thesis
      using True by (simp add: ceil_div_def q_def r_def)
  next
    case False
    have "p + (k - 1) = (r - 1) + (q + 1) * k"
      using p False assms by (simp add: algebra_simps)
    then have "(p + (k - 1)) div k = ((r - 1) + (q + 1) * k) div k"
      by (rule arg_cong)
    also have "\<dots> = (q + 1) + (r - 1) div k"
      by (rule div_mult_self1 [OF k])
    also have "\<dots> = q + 1"
      using r by (simp add: less_imp_diff_less)
    finally show ?thesis
      using False by (simp add: ceil_div_def q_def r_def)
  qed
qed


lemma ceil_div_small: "0 < b \<Longrightarrow> a \<le> b \<Longrightarrow> ceil_div a b \<le> 1"
proof -
  assume b: "0 < b" and a: "a \<le> b"
  from a have "a \<le> 1 * b" by simp
  with ceil_div_least [OF b, of a] show ?thesis by blast
qed

lemma ceil_div_large: "0 < b \<Longrightarrow> b < a \<Longrightarrow> 2 \<le> ceil_div a b"
proof -
  assume b: "0 < b" and a: "b < a"
  have "\<not> ceil_div a b \<le> 1"
  proof
    assume "ceil_div a b \<le> 1"
    then have "ceil_div a b * b \<le> 1 * b"
      by (rule mult_le_mono1)
    moreover have "a \<le> ceil_div a b * b"
      using ceil_div_least [OF b, of a] by simp
    ultimately show False
      using a by linarith
  qed
  then show ?thesis by simp
qed

lemma unat_round_up_div:
  fixes p k :: size_t
  assumes "k \<noteq> 0" and "unat p + (unat k - 1) < 2 ^ 64"
  shows "unat ((p + (k - 1)) div k) = ceil_div (unat p) (unat k)"
proof -
  have k1: "unat (k - 1) = unat k - 1"
    using assms(1) by (rule unat_minus_one)
  have "unat p + unat (k - 1) < 2 ^ LENGTH(64)"
    using assms(2) k1 by simp
  then have sum: "unat (p + (k - 1)) = unat p + (unat k - 1)"
    using unat_add_lem [of p "k - 1"] k1 by simp
  have pos: "0 < unat k"
    using assms(1) by (simp add: unat_gt_0)
  show ?thesis
    using sum round_up_div [OF pos, of "unat p"] by (simp add: unat_div)
qed

lemma max_pkts_unat:
  assumes "kMaxDataPerPkt e \<noteq> 0"
    and "p \<le> kMaxDataPerPkt e \<or> unat p + (unat (kMaxDataPerPkt e) - 1) < 2 ^ 64"
  shows "unat (if p \<le> kMaxDataPerPkt e then 1
               else (p + (kMaxDataPerPkt e - 1)) div kMaxDataPerPkt e) = hdr_slots e p"
proof (cases "p \<le> kMaxDataPerPkt e")
  case True
  have pos: "0 < unat (kMaxDataPerPkt e)"
    using assms(1) by (simp add: unat_gt_0)
  from True have "unat p \<le> unat (kMaxDataPerPkt e)"
    by (simp add: word_le_nat_alt)
  with pos have "ceil_div (unat p) (unat (kMaxDataPerPkt e)) \<le> 1"
    by (rule ceil_div_small)
  with True show ?thesis
    by (simp add: hdr_slots_def max_def)
next
  case False
  have pos: "0 < unat (kMaxDataPerPkt e)"
    using assms(1) by (simp add: unat_gt_0)
  from False have "unat (kMaxDataPerPkt e) < unat p"
    by (simp add: word_le_nat_alt)
  with pos have "2 \<le> ceil_div (unat p) (unat (kMaxDataPerPkt e))"
    by (rule ceil_div_large)
  moreover from False assms(2) have "unat p + (unat (kMaxDataPerPkt e) - 1) < 2 ^ 64"
    by simp
  ultimately show ?thesis
    using False unat_round_up_div [OF assms(1), of p] by (simp add: hdr_slots_def max_def)
qed

subsection \<open>One step and many steps of the transmit batch\<close>

lemma fault_inject_arms:
  assumes "kFaultInjection e" and "in_creator e s"
  shows "\<exists>s0. fault_inject_drop_tx_local_st e s n = Inr s0
           \<and> drop_tx_local (faults s0) \<and> drop_tx_local_countdown (faults s0) = n
           \<and> in_creator e s0 \<and> tx_batch_i s0 = tx_batch_i s \<and> tx_stream s0 = tx_stream s"
  using assms by (simp add: fault_inject_drop_tx_local_st_def in_creator_def tx_stream_def)

lemma enqueue_step:
  assumes "in_creator e s" and "kFaultInjection e" and "tx_batch_i s < kPostlist e"
  shows "\<exists>s' it. enqueue_pkt_tx_burst_st e s (Some r) (Some mp) off dbytes = Inr s'
           \<and> tx_stream s' = tx_stream s @ [it]
           \<and> pkt_of_item it = (Some r, Some mp, off, dbytes)
           \<and> drop_flag it = (drop_tx_local (faults s) \<and> drop_tx_local_countdown (faults s) = 0)
           \<and> faults s' = faults_step (faults s)
           \<and> in_creator e s' \<and> tx_batch_i s' < kPostlist e"
proof -
  have u: "unat (tx_batch_i s + 1) = Suc (unat (tx_batch_i s))"
    using assms(3) by (rule unat_succ_below)
  have le: "tx_batch_i s + 1 \<le> kPostlist e"
    using assms(3) by (simp add: inc_le)
  have pos: "0 < kPostlist e"
    using assms(3) by (metis word_gt_0 word_not_simps(1))
  show ?thesis
  proof (cases "tx_batch_i s + 1 = kPostlist e")
    case True
    with assms u pos show ?thesis
      by (auto simp add: enqueue_pkt_tx_burst_st_def Let_def upd_msgbuf_def word_gt_0
          tx_stream_def tx_burst_def pkt_of_item_def faults_step_def in_creator_def)
  next
    case False
    with le have "tx_batch_i s + 1 < kPostlist e"
      by simp
    with False assms u show ?thesis
      by (auto simp add: enqueue_pkt_tx_burst_st_def Let_def upd_msgbuf_def word_gt_0
          tx_stream_def tx_burst_def pkt_of_item_def faults_step_def in_creator_def)
  qed
qed


lemma drop_pattern_step:
  "map (\<lambda>j. drop_tx_local f \<and> j = unat (drop_tx_local_countdown f)) [0..<Suc m] =
     (drop_tx_local f \<and> drop_tx_local_countdown f = 0) #
     map (\<lambda>j. drop_tx_local (faults_step f) \<and> j = unat (drop_tx_local_countdown (faults_step f)))
       [0..<m]"
proof -
  have split: "[0..<Suc m] = 0 # map Suc [0..<m]"
    by (simp add: upt_conv_Cons map_Suc_upt del: upt_Suc)
  have pred: "drop_tx_local_countdown f \<noteq> 0 \<Longrightarrow>
      Suc j = unat (drop_tx_local_countdown f) \<longleftrightarrow> j = unat (drop_tx_local_countdown f - 1)" for j
    using unat_minus_one [of "drop_tx_local_countdown f"] unat_gt_0 [of "drop_tx_local_countdown f"]
    by auto
  show ?thesis
    unfolding split
    by (auto simp add: faults_step_def unat_eq_0 pred comp_def)
qed

lemma armed_step:
  "(drop_tx_local (faults_step f) \<and> m \<le> unat (drop_tx_local_countdown (faults_step f)))
     = (drop_tx_local f \<and> Suc m \<le> unat (drop_tx_local_countdown f))"
  using unat_minus_one [of "drop_tx_local_countdown f"] unat_gt_0 [of "drop_tx_local_countdown f"]
  by (auto simp add: faults_step_def)

lemma enqueue_pkts_run:
  assumes "kFaultInjection e" and "in_creator e s" and "tx_batch_i s < kPostlist e"
    and "\<forall>p \<in> set ps. fst p \<noteq> None \<and> fst (snd p) \<noteq> None"
  shows "\<exists>s' items. enqueue_pkts e s ps = Inr s'
           \<and> tx_stream s' = tx_stream s @ items
           \<and> map pkt_of_item items = ps
           \<and> map drop_flag items =
               map (\<lambda>j. drop_tx_local (faults s) \<and> j = unat (drop_tx_local_countdown (faults s)))
                 [0..<length ps]
           \<and> (drop_tx_local (faults s') \<longleftrightarrow>
                drop_tx_local (faults s) \<and> length ps \<le> unat (drop_tx_local_countdown (faults s)))"
  using assms
proof (induction ps arbitrary: s)
  case Nil
  then show ?case by simp
next
  case (Cons p ps)
  obtain rinfo txm off dbytes where p: "p = (rinfo, txm, off, dbytes)"
    by (cases p) auto
  with Cons.prems(4) obtain r mp where rm: "rinfo = Some r" "txm = Some mp"
    by auto
  from enqueue_step [OF Cons.prems(2) Cons.prems(1) Cons.prems(3), of r mp off dbytes]
  obtain s1 it where s1: "enqueue_pkt_tx_burst_st e s (Some r) (Some mp) off dbytes = Inr s1"
    and st1: "tx_stream s1 = tx_stream s @ [it]"
    and it: "pkt_of_item it = (Some r, Some mp, off, dbytes)"
    and dr: "drop_flag it = (drop_tx_local (faults s) \<and> drop_tx_local_countdown (faults s) = 0)"
    and f1: "faults s1 = faults_step (faults s)"
    and c1: "in_creator e s1" and b1: "tx_batch_i s1 < kPostlist e"
    by blast
  from Cons.prems(4) have rest: "\<forall>p \<in> set ps. fst p \<noteq> None \<and> fst (snd p) \<noteq> None"
    by simp
  from Cons.IH [OF Cons.prems(1) c1 b1 rest]
  obtain s2 items where s2: "enqueue_pkts e s1 ps = Inr s2"
    and st2: "tx_stream s2 = tx_stream s1 @ items"
    and pk: "map pkt_of_item items = ps"
    and dp: "map drop_flag items =
               map (\<lambda>j. drop_tx_local (faults s1) \<and> j = unat (drop_tx_local_countdown (faults s1)))
                 [0..<length ps]"
    and fin: "drop_tx_local (faults s2) \<longleftrightarrow>
                drop_tx_local (faults s1) \<and> length ps \<le> unat (drop_tx_local_countdown (faults s1))"
    by blast
  have run: "enqueue_pkts e s (p # ps) = Inr s2"
    using p rm s1 s2 by simp
  have stream: "tx_stream s2 = tx_stream s @ (it # items)"
    using st1 st2 by simp
  have pkts: "map pkt_of_item (it # items) = p # ps"
    using it pk p rm by simp
  have drops: "map drop_flag (it # items) =
      map (\<lambda>j. drop_tx_local (faults s) \<and> j = unat (drop_tx_local_countdown (faults s)))
        [0..<length (p # ps)]"
    using dr dp f1 drop_pattern_step [of "faults s" "length ps"] by simp
  have final: "drop_tx_local (faults s2) \<longleftrightarrow>
      drop_tx_local (faults s) \<and> length (p # ps) \<le> unat (drop_tx_local_countdown (faults s))"
    using fin f1 armed_step [of "faults s" "length ps"] by simp
  have "enqueue_pkts e s (p # ps) = Inr s2
      \<and> tx_stream s2 = tx_stream s @ (it # items)
      \<and> map pkt_of_item (it # items) = p # ps
      \<and> map drop_flag (it # items) =
          map (\<lambda>j. drop_tx_local (faults s) \<and> j = unat (drop_tx_local_countdown (faults s)))
            [0..<length (p # ps)]
      \<and> (drop_tx_local (faults s2) \<longleftrightarrow>
          drop_tx_local (faults s) \<and> length (p # ps) \<le> unat (drop_tx_local_countdown (faults s)))"
    using run stream pkts drops final by (intro conjI)
  then show ?case
    by (intro exI)
qed

lemma enqueue_Inr_faults:
  assumes "kFaultInjection e" and "enqueue_pkt_tx_burst_st e s rinfo txm off dbytes = Inr s1"
  shows "faults s1 = faults_step (faults s)
       \<and> drop_flag (tx_burst_arr s1 (unat (tx_batch_i s)))
           = (drop_tx_local (faults s) \<and> drop_tx_local_countdown (faults s) = 0)"
proof -
  from assms(2) obtain r mp where ok: "in_creator e s" "rinfo = Some r" "txm = Some mp"
      "tx_batch_i s < kPostlist e"
    by (auto simp add: enqueue_pkt_tx_burst_st_def split: option.splits if_splits)
  from enqueue_step [OF ok(1) assms(1) ok(4), of r mp off dbytes] assms(2) ok(2,3)
  obtain it where st: "tx_stream s1 = tx_stream s @ [it]"
    and dr: "drop_flag it = (drop_tx_local (faults s) \<and> drop_tx_local_countdown (faults s) = 0)"
    and f: "faults s1 = faults_step (faults s)"
    by auto
  have u: "unat (tx_batch_i s + 1) = Suc (unat (tx_batch_i s))"
    using ok(4) by (rule unat_succ_below)
  have "drop_flag (tx_burst_arr s1 (unat (tx_batch_i s)))
      = (drop_tx_local (faults s) \<and> drop_tx_local_countdown (faults s) = 0)"
    using assms ok u
    by (auto simp add: enqueue_pkt_tx_burst_st_def Let_def upd_msgbuf_def word_gt_0
        split: if_splits)
  with f show ?thesis
    by simp
qed

lemma burst_now_Inr_faults:
  "tx_burst_now_st e s rinfo txm = Inr s1 \<Longrightarrow> faults s1 = faults s"
  by (auto simp add: tx_burst_now_st_def Let_def split: option.splits if_splits)

subsection \<open>Burying the buffers of a slot\<close>

lemma bury_tx_result:
  "bury_sslot_tx_msgbuf e s (Some sp) = Inr s' \<Longrightarrow>
     tx_msgbuf (sslots s' sp) = None
     \<and> free_log (huge_alloc s') = free_log (huge_alloc s) @
          (case tx_msgbuf (sslots s sp) of
             None \<Rightarrow> []
           | Some mp \<Rightarrow> if is_dynamic (msgbufs s mp) then [buffer (msgbufs s mp)] else [])
     \<and> alloc_log (huge_alloc s') = alloc_log (huge_alloc s)"
  by (auto simp add: bury_sslot_tx_msgbuf_def free_msg_buffer_def free_buf_def upd_sslot_def
      split: option.splits if_splits)

lemma bury_tx_succeeds:
  "(\<exists>s'. bury_sslot_tx_msgbuf e s (Some sp) = Inr s') \<longleftrightarrow>
     (case tx_msgbuf (sslots s sp) of
        None \<Rightarrow> True
      | Some mp \<Rightarrow> is_dynamic (msgbufs s mp) \<longrightarrow>
          MsgBuffer.buf (msgbufs s mp) \<noteq> None \<and> check_magic e s (msgbufs s mp))"
  by (auto simp add: bury_sslot_tx_msgbuf_def free_msg_buffer_def split: option.splits)

lemma bury_rx_result:
  "bury_sslot_rx_msgbuf e s (Some sp) = Inr s' \<Longrightarrow>
     MsgBuffer.buf (rx_msgbuf (sslots s' sp)) = None
     \<and> free_log (huge_alloc s') = free_log (huge_alloc s) @
          (if is_dynamic (rx_msgbuf (sslots s sp)) then [buffer (rx_msgbuf (sslots s sp))] else [])
     \<and> alloc_log (huge_alloc s') = alloc_log (huge_alloc s)
     \<and> \<not> is_dynamic (rx_msgbuf (sslots s' sp))
     \<and> tx_msgbuf (sslots s' sp) = tx_msgbuf (sslots s sp)
     \<and> session (sslots s' sp) = session (sslots s sp)
     \<and> index (sslots s' sp) = index (sslots s sp)
     \<and> sessions s' = sessions s"
  by (auto simp add: bury_sslot_rx_msgbuf_def free_msg_buffer_def free_buf_def upd_sslot_def
      Let_def is_dynamic_def split: option.splits if_splits)

lemma bury_rx_succeeds:
  "(\<exists>s'. bury_sslot_rx_msgbuf e s (Some sp) = Inr s') \<longleftrightarrow>
     (is_dynamic (rx_msgbuf (sslots s sp)) \<longrightarrow>
        MsgBuffer.buf (rx_msgbuf (sslots s sp)) \<noteq> None \<and> check_magic e s (rx_msgbuf (sslots s sp)))"
  by (auto simp add: bury_sslot_rx_msgbuf_def free_msg_buffer_def Let_def)

lemma bury_rx_nofree_result:
  "bury_sslot_rx_msgbuf_nofree s (Some sp) = Inr s' \<Longrightarrow>
     \<not> is_dynamic (rx_msgbuf (sslots s sp))
     \<and> MsgBuffer.buf (rx_msgbuf (sslots s' sp)) = None
     \<and> huge_alloc s' = huge_alloc s"
  by (auto simp add: bury_sslot_rx_msgbuf_nofree_def upd_sslot_def split: if_splits)

lemma bury_rx_nofree_succeeds:
  "(\<exists>s'. bury_sslot_rx_msgbuf_nofree s (Some sp) = Inr s') \<longleftrightarrow>
     \<not> is_dynamic (rx_msgbuf (sslots s sp))"
  by (auto simp add: bury_sslot_rx_msgbuf_nofree_def)

subsection \<open>Facts about the concrete endpoint\<close>

lemmas ex_defs = ex_env_def ex_rpc_def ex_hdr_def ex_msgbuf_def ex_default_msgbuf_def
  ex_alloc_def

lemmas run_defs = enqueue_pkt_tx_burst_st_def tx_burst_now_st_def tx_burst_def
  fault_inject_drop_tx_local_st_def in_creator_def upd_msgbuf_def Let_def
  is_expl_cr_def is_req_for_resp_def get_pkthdr_0_def

lemma ex_rpc_deferred_facts:
  "in_creator ex_env ex_rpc_deferred" "tx_batch_i ex_rpc_deferred = 1"
  "transport_tx ex_rpc_deferred = []"
  "pkt_of_item (tx_burst_arr ex_rpc_deferred 0) = (Some 7, Some 1, 0, 64)"
  "is_expl_cr ex_env ex_rpc_deferred (msgbufs ex_rpc_deferred 2)"
  by (simp_all add: ex_rpc_deferred_def run_defs ex_defs pkt_of_item_def)

lemma ex_rpc_armed0_facts:
  "in_creator ex_env ex_rpc_armed0" "tx_batch_i ex_rpc_armed0 = 0"
  "drop_tx_local (faults ex_rpc_armed0)" "drop_tx_local_countdown (faults ex_rpc_armed0) = 0"
  "pkts_queued (msgbufs ex_rpc_armed0 1) = 0" "tx_stream ex_rpc_armed0 = []"
  by (simp_all add: ex_rpc_armed0_def run_defs ex_defs tx_stream_def)

lemma ex_rpc_armed1_facts:
  "in_creator ex_env ex_rpc_armed1" "tx_batch_i ex_rpc_armed1 = 0"
  "drop_tx_local (faults ex_rpc_armed1)" "drop_tx_local_countdown (faults ex_rpc_armed1) = 1"
  "tx_stream ex_rpc_armed1 = []"
  by (simp_all add: ex_rpc_armed1_def run_defs ex_defs tx_stream_def)

lemma ex_rpc_stale_facts:
  "in_creator ex_env ex_rpc_stale" "tx_batch_i ex_rpc_stale = 0"
  "drop_flag (tx_burst_arr ex_rpc_stale 0)"
  "\<not> drop_tx_local (faults ex_rpc_stale)"
  "is_expl_cr ex_env ex_rpc_stale (msgbufs ex_rpc_stale 2)"
  "map drop_flag (tx_stream ex_rpc_stale) = [True, False]"
  by (simp_all add: ex_rpc_stale_def ex_rpc_armed0_def ex_pkt_def run_defs ex_defs
      tx_stream_def upt_rec)

subsection \<open>Claims about the buffer allocator\<close>

text \<open>
  Claim C1, as amended. Let \<open>p\<close> be the requested payload size, with
  \<^verbatim>\<open>kMaxDataPerPkt\<close> non-zero and no \<^verbatim>\<open>size_t\<close> overflow in the size computation.
  Then \<^verbatim>\<open>alloc_msg_buffer(p)\<close> asks the hugepage allocator for exactly
  \<open>p + max 1 (ceil (p / kMaxDataPerPkt)) * sizeof(pkthdr_t)\<close> bytes: one header slot
  per packet, and one header slot for an empty payload as well. When the allocator answers
  with a non-null buffer, the returned \<^verbatim>\<open>MsgBuffer\<close> owns that buffer, records \<open>p\<close>
  and the packet count, and its payload pointer is the start of the allocation offset past
  the leading header slot.
\<close>

theorem alloc_msg_buffer_reserves:
  assumes "kMaxDataPerPkt e \<noteq> 0"
    and "p \<le> kMaxDataPerPkt e \<or> unat p + (unat (kMaxDataPerPkt e) - 1) < 2 ^ 64"
    and "unat p + hdr_slots e p * unat (sizeof_pkthdr_t e) < 2 ^ 64"
  shows "\<exists>sz. alloc_log (huge_alloc (snd (alloc_msg_buffer e s p))) = alloc_log (huge_alloc s) @ [sz]
           \<and> unat sz = unat p + hdr_slots e p * unat (sizeof_pkthdr_t e)
           \<and> (\<forall>b a. alloc_answer e (huge_alloc s) sz = Inr b \<longrightarrow> Buffer.buf b = Some a \<longrightarrow>
                 (\<exists>m. fst (alloc_msg_buffer e s p) = Inr m
                    \<and> buffer m = b
                    \<and> MsgBuffer.buf m = Some (a + unat (sizeof_pkthdr_t e))
                    \<and> max_data_size m = p
                    \<and> unat (max_num_pkts m) = hdr_slots e p))"
proof -
  define n where "n = (if p \<le> kMaxDataPerPkt e then 1
                       else (p + (kMaxDataPerPkt e - 1)) div kMaxDataPerPkt e)"
  have n: "unat n = hdr_slots e p"
    unfolding n_def using assms(1,2) by (rule max_pkts_unat)
  have sz: "unat (p + n * sizeof_pkthdr_t e) = unat p + hdr_slots e p * unat (sizeof_pkthdr_t e)"
    using request_size_unat [of p n "sizeof_pkthdr_t e"] assms(3) n by simp
  have run: "alloc_msg_buffer e s p =
      (case HugeAlloc_alloc e (huge_alloc s) (p + n * sizeof_pkthdr_t e) of
         (Inl err, h) \<Rightarrow> (Inl err, s\<lparr>huge_alloc := h\<rparr>)
       | (Inr b, h) \<Rightarrow>
           if Buffer.buf b = None
           then (Inr ((MsgBuffer_default e)\<lparr>MsgBuffer.buf := None\<rparr>), s\<lparr>huge_alloc := h\<rparr>)
           else (case MsgBuffer_ctor e (s\<lparr>huge_alloc := h\<rparr>) b p n of
                   Inl err \<Rightarrow> (Inl err, s\<lparr>huge_alloc := h\<rparr>)
                 | Inr (m, s1) \<Rightarrow> (Inr m, s1)))"
    unfolding n_def using assms(1)
    by (cases "p \<le> kMaxDataPerPkt e") (simp_all add: alloc_msg_buffer_def)
  have log: "alloc_log (huge_alloc (snd (alloc_msg_buffer e s p))) =
      alloc_log (huge_alloc s) @ [p + n * sizeof_pkthdr_t e]"
    unfolding run
    by (auto simp add: HugeAlloc_alloc_def MsgBuffer_ctor_def split: sum.splits option.splits)
  have ok: "\<exists>m. fst (alloc_msg_buffer e s p) = Inr m \<and> buffer m = b
        \<and> MsgBuffer.buf m = Some (a + unat (sizeof_pkthdr_t e))
        \<and> max_data_size m = p \<and> unat (max_num_pkts m) = hdr_slots e p"
    if "alloc_answer e (huge_alloc s) (p + n * sizeof_pkthdr_t e) = Inr b" and "Buffer.buf b = Some a"
    for b a
    unfolding run using that n
    by (simp add: HugeAlloc_alloc_def MsgBuffer_ctor_def)
  from log sz ok show ?thesis
    by blast
qed

text \<open>
  The 3200-byte request of the multi-packet scenario: four packets of at most 1024 bytes,
  so 3200 + 4 * 16 = 3264 bytes are requested, and the payload starts 16 bytes into the
  allocation at 65536.
\<close>

theorem alloc_msg_buffer_reserves_witness:
  "kMaxDataPerPkt ex_env \<noteq> 0
   \<and> unat (3200 :: size_t) + (unat (kMaxDataPerPkt ex_env) - 1) < 2 ^ 64
   \<and> unat (3200 :: size_t) + hdr_slots ex_env 3200 * unat (sizeof_pkthdr_t ex_env) < 2 ^ 64
   \<and> hdr_slots ex_env 3200 = 4
   \<and> (\<exists>sz. alloc_log (huge_alloc (snd (alloc_msg_buffer ex_env ex_rpc 3200))) = [sz]
         \<and> unat sz = 3264)
   \<and> (\<exists>m. fst (alloc_msg_buffer ex_env ex_rpc 3200) = Inr m
         \<and> MsgBuffer.buf m = Some 65552 \<and> unat (max_num_pkts m) = 4)"
proof -
  have k: "kMaxDataPerPkt ex_env \<noteq> 0"
    by (simp add: ex_env_def)
  have h: "hdr_slots ex_env 3200 = 4"
    by (simp add: hdr_slots_def ceil_div_def ex_env_def)
  have o1: "(3200 :: size_t) \<le> kMaxDataPerPkt ex_env
      \<or> unat (3200 :: size_t) + (unat (kMaxDataPerPkt ex_env) - 1) < 2 ^ 64"
    by (simp add: ex_env_def)
  have o2: "unat (3200 :: size_t) + hdr_slots ex_env 3200 * unat (sizeof_pkthdr_t ex_env) < 2 ^ 64"
    unfolding h by (simp add: ex_env_def)
  from alloc_msg_buffer_reserves [OF k o1 o2, of ex_rpc]
  obtain sz where log: "alloc_log (huge_alloc (snd (alloc_msg_buffer ex_env ex_rpc 3200)))
        = alloc_log (huge_alloc ex_rpc) @ [sz]"
    and sz: "unat sz = unat (3200 :: size_t) + hdr_slots ex_env 3200 * unat (sizeof_pkthdr_t ex_env)"
    and ok: "\<forall>b a. alloc_answer ex_env (huge_alloc ex_rpc) sz = Inr b \<longrightarrow> Buffer.buf b = Some a \<longrightarrow>
        (\<exists>m. fst (alloc_msg_buffer ex_env ex_rpc 3200) = Inr m \<and> buffer m = b
           \<and> MsgBuffer.buf m = Some (a + unat (sizeof_pkthdr_t ex_env))
           \<and> max_data_size m = 3200 \<and> unat (max_num_pkts m) = hdr_slots ex_env 3200)"
    by blast
  have u: "unat sz = 3264"
    using sz h by (simp add: ex_env_def)
  have "sz = of_nat (unat sz)"
    by simp
  then have v: "sz = 3264"
    unfolding u by simp
  have ans: "alloc_answer ex_env (huge_alloc ex_rpc) sz
      = Inr \<lparr>Buffer.buf = Some 65536, class_size = 3264\<rparr>"
    unfolding v by (simp add: ex_defs)
  from ok ans have "\<exists>m. fst (alloc_msg_buffer ex_env ex_rpc 3200) = Inr m
      \<and> MsgBuffer.buf m = Some (65536 + unat (sizeof_pkthdr_t ex_env))
      \<and> unat (max_num_pkts m) = hdr_slots ex_env 3200"
    by fastforce
  then have m: "\<exists>m. fst (alloc_msg_buffer ex_env ex_rpc 3200) = Inr m
      \<and> MsgBuffer.buf m = Some 65552 \<and> unat (max_num_pkts m) = 4"
    unfolding h by (simp add: ex_env_def)
  have l: "\<exists>sz. alloc_log (huge_alloc (snd (alloc_msg_buffer ex_env ex_rpc 3200))) = [sz]
      \<and> unat sz = 3264"
    using log u by (simp add: ex_rpc_def)
  from k o1 o2 h l m show ?thesis
    by (simp add: ex_env_def)
qed

text \<open>
  Claim C1 as first stated promises \<open>p + ceil (p / kMaxDataPerPkt) * sizeof(pkthdr_t)\<close>
  bytes for every \<open>p\<close>. For \<open>p = 0\<close> that is 0 bytes, while the code takes the
  small-packet branch, sets the packet count to 1 and requests one header: 16 bytes.
\<close>

theorem alloc_zero_counterexample:
  "map unat (alloc_log (huge_alloc (snd (alloc_msg_buffer ex_env ex_rpc 0)))) = [16]
   \<and> unat (0 :: size_t)
       + ceil_div (unat (0 :: size_t)) (unat (kMaxDataPerPkt ex_env)) * unat (sizeof_pkthdr_t ex_env)
       = 0"
  by (simp add: alloc_msg_buffer_def HugeAlloc_alloc_def MsgBuffer_ctor_def ceil_div_def ex_defs)

text \<open>
  Outside the range without overflow the size computation wraps: a payload size of
  18162948011037097984 bytes yields a request of 1024 bytes, which the toy allocator
  grants, and the returned buffer still records the huge payload size.
\<close>

lemma alloc_msg_buffer_wraps_example:
  "map unat (alloc_log (huge_alloc (snd (alloc_msg_buffer ex_env ex_rpc 18162948011037097984))))
     = [1024]
   \<and> map_sum id (\<lambda>m. (unat (max_data_size m), unat (max_num_pkts m), MsgBuffer.buf m))
        (fst (alloc_msg_buffer ex_env ex_rpc 18162948011037097984))
     = Inr (18162948011037097984, 17737253917028416, Some 65552)"
  by (simp add: alloc_msg_buffer_def HugeAlloc_alloc_def MsgBuffer_ctor_def ex_defs)

text \<open>
  Claim C5. Whatever size \<^verbatim>\<open>alloc_msg_buffer\<close> requests, if the allocator answers that
  request with a buffer whose \<^verbatim>\<open>buf\<close> is null (it ran out of memory), then
  \<^verbatim>\<open>alloc_msg_buffer\<close> returns normally, without an exception, a \<^verbatim>\<open>MsgBuffer\<close> whose
  payload pointer \<^verbatim>\<open>buf\<close> is null: it is a default-constructed buffer with \<^verbatim>\<open>buf\<close>
  set to null, no buffer is constructed over the failed allocation, and no packet header
  is written.
\<close>

theorem alloc_msg_buffer_out_of_memory:
  assumes "kMaxDataPerPkt e \<noteq> 0"
  shows "\<exists>sz. alloc_log (huge_alloc (snd (alloc_msg_buffer e s p))) = alloc_log (huge_alloc s) @ [sz]
           \<and> (\<forall>b. alloc_answer e (huge_alloc s) sz = Inr b \<longrightarrow> Buffer.buf b = None \<longrightarrow>
                 (\<exists>m. fst (alloc_msg_buffer e s p) = Inr m \<and> MsgBuffer.buf m = None
                    \<and> m = (MsgBuffer_default e)\<lparr>MsgBuffer.buf := None\<rparr>)
                 \<and> pkthdrs (snd (alloc_msg_buffer e s p)) = pkthdrs s)"
proof -
  define n where "n = (if p \<le> kMaxDataPerPkt e then 1
                       else (p + (kMaxDataPerPkt e - 1)) div kMaxDataPerPkt e)"
  have run: "alloc_msg_buffer e s p =
      (case HugeAlloc_alloc e (huge_alloc s) (p + n * sizeof_pkthdr_t e) of
         (Inl err, h) \<Rightarrow> (Inl err, s\<lparr>huge_alloc := h\<rparr>)
       | (Inr b, h) \<Rightarrow>
           if Buffer.buf b = None
           then (Inr ((MsgBuffer_default e)\<lparr>MsgBuffer.buf := None\<rparr>), s\<lparr>huge_alloc := h\<rparr>)
           else (case MsgBuffer_ctor e (s\<lparr>huge_alloc := h\<rparr>) b p n of
                   Inl err \<Rightarrow> (Inl err, s\<lparr>huge_alloc := h\<rparr>)
                 | Inr (m, s1) \<Rightarrow> (Inr m, s1)))"
    unfolding n_def using assms(1)
    by (cases "p \<le> kMaxDataPerPkt e") (simp_all add: alloc_msg_buffer_def)
  have log: "alloc_log (huge_alloc (snd (alloc_msg_buffer e s p))) =
      alloc_log (huge_alloc s) @ [p + n * sizeof_pkthdr_t e]"
    unfolding run
    by (auto simp add: HugeAlloc_alloc_def MsgBuffer_ctor_def split: sum.splits option.splits)
  have oom: "(\<exists>m. fst (alloc_msg_buffer e s p) = Inr m \<and> MsgBuffer.buf m = None
        \<and> m = (MsgBuffer_default e)\<lparr>MsgBuffer.buf := None\<rparr>)
      \<and> pkthdrs (snd (alloc_msg_buffer e s p)) = pkthdrs s"
    if "alloc_answer e (huge_alloc s) (p + n * sizeof_pkthdr_t e) = Inr b" and "Buffer.buf b = None"
    for b
    unfolding run using that
    by (simp add: HugeAlloc_alloc_def)
  from log oom show ?thesis
    by blast
qed

text \<open>The toy allocator is out of memory at its third request; the result is an invalid buffer.\<close>

theorem alloc_msg_buffer_out_of_memory_witness:
  "kMaxDataPerPkt ex_env \<noteq> 0
   \<and> (\<exists>m. fst (alloc_msg_buffer ex_env ex_rpc_full 64) = Inr m \<and> MsgBuffer.buf m = None)"
proof -
  have k: "kMaxDataPerPkt ex_env \<noteq> 0"
    by (simp add: ex_env_def)
  from alloc_msg_buffer_out_of_memory [OF k, of ex_rpc_full 64]
  obtain sz where log: "alloc_log (huge_alloc (snd (alloc_msg_buffer ex_env ex_rpc_full 64)))
        = alloc_log (huge_alloc ex_rpc_full) @ [sz]"
    and oom: "\<forall>b. alloc_answer ex_env (huge_alloc ex_rpc_full) sz = Inr b \<longrightarrow> Buffer.buf b = None \<longrightarrow>
        (\<exists>m. fst (alloc_msg_buffer ex_env ex_rpc_full 64) = Inr m \<and> MsgBuffer.buf m = None
           \<and> m = (MsgBuffer_default ex_env)\<lparr>MsgBuffer.buf := None\<rparr>)
        \<and> pkthdrs (snd (alloc_msg_buffer ex_env ex_rpc_full 64)) = pkthdrs ex_rpc_full"
    by blast
  have "alloc_log (huge_alloc (snd (alloc_msg_buffer ex_env ex_rpc_full 64))) = [3264, 80, 80]"
    by (simp add: alloc_msg_buffer_def HugeAlloc_alloc_def MsgBuffer_ctor_def ex_rpc_full_def ex_defs)
  with log have v: "sz = 80"
    by (simp add: ex_rpc_full_def ex_rpc_def)
  have "alloc_answer ex_env (huge_alloc ex_rpc_full) sz = Inr \<lparr>Buffer.buf = None, class_size = 0\<rparr>"
    unfolding v by (simp add: ex_rpc_full_def ex_defs)
  with oom have "\<exists>m. fst (alloc_msg_buffer ex_env ex_rpc_full 64) = Inr m \<and> MsgBuffer.buf m = None"
    by fastforce
  with k show ?thesis
    by simp
qed

subsection \<open>Claims about credits\<close>

text \<open>
  Claim C2. When a credit return is processed for a client session whose credit counter is
  below \<^verbatim>\<open>kSessionCredits\<close> (the two assertions of \<^verbatim>\<open>bump_credits\<close>), the call
  succeeds, the counter grows by exactly one without wrapping, it does not exceed
  \<^verbatim>\<open>kSessionCredits\<close> afterwards, and no other session changes.
\<close>

theorem bump_credits_bounded:
  assumes "is_client (sessions s sp)"
    and "credits (sessions s sp) < kSessionCredits e"
  shows "\<exists>s'. bump_credits e s sp = Inr s'
           \<and> unat (credits (sessions s' sp)) = unat (credits (sessions s sp)) + 1
           \<and> credits (sessions s' sp) \<le> kSessionCredits e
           \<and> (\<forall>q. q \<noteq> sp \<longrightarrow> sessions s' q = sessions s q)"
proof -
  let ?c = "credits (sessions s sp)"
  have "unat ?c < unat (kSessionCredits e)"
    using assms(2) by (simp add: word_less_nat_alt)
  moreover have "unat (kSessionCredits e) < 2 ^ 64"
    using unsigned_less [of "kSessionCredits e", where ?'a = nat] by simp
  ultimately have "unat ?c + unat (1 :: size_t) < 2 ^ LENGTH(64)"
    by simp
  then have step: "unat (?c + 1) = unat ?c + 1"
    using unat_add_lem [of ?c 1] by simp
  from assms(2) have le: "?c + 1 \<le> kSessionCredits e"
    by (simp add: inc_le)
  from assms step le show ?thesis
    by (simp add: bump_credits_def upd_session_def)
qed

text \<open>The client session of the concrete endpoint goes from 7 credits to 8, the bound.\<close>

theorem bump_credits_bounded_witness:
  "is_client (sessions ex_rpc 1) \<and> credits (sessions ex_rpc 1) < kSessionCredits ex_env
   \<and> (\<exists>s'. bump_credits ex_env ex_rpc 1 = Inr s'
        \<and> unat (credits (sessions s' 1)) = 8
        \<and> credits (sessions s' 1) \<le> kSessionCredits ex_env)"
proof -
  have a: "is_client (sessions ex_rpc 1)"
    by (simp add: ex_rpc_def is_client_def)
  have b: "credits (sessions ex_rpc 1) < kSessionCredits ex_env"
    by (simp add: ex_rpc_def ex_env_def)
  have c: "unat (credits (sessions ex_rpc 1)) = 7"
    by (simp add: ex_rpc_def)
  from bump_credits_bounded [OF a b] c a b show ?thesis
    by auto
qed

subsection \<open>Claims about the transmit path\<close>

text \<open>
  Claim C3, as amended. A header-only control packet (explicit credit return or
  request-for-response) sent through \<^verbatim>\<open>tx_burst_now_st\<close> does not wait: the call itself
  hands one burst to the transport and resets the batch index to 0. That burst is the
  \<^verbatim>\<open>tx_batch_i\<close> packets that earlier calls had deferred in the batch array, in order,
  followed by the control packet as its last item, with offset 0 and no data bytes. The
  burst holds the control packet alone exactly when nothing was deferred.
\<close>

theorem tx_burst_now_flushes_batch:
  assumes "in_creator e s" and "rinfo \<noteq> None" and "tx_batch_i s < kPostlist e"
    and "is_expl_cr e s (msgbufs s mp) \<or> is_req_for_resp e s (msgbufs s mp)"
  shows "\<exists>s' it. tx_burst_now_st e s rinfo (Some mp) = Inr s'
           \<and> transport_tx s' =
               transport_tx s @ [map (tx_burst_arr s) [0..<unat (tx_batch_i s)] @ [it]]
           \<and> pkt_of_item it = (rinfo, Some mp, 0, 0)
           \<and> tx_batch_i s' = 0
           \<and> (length (last (transport_tx s')) = 1 \<longleftrightarrow> tx_batch_i s = 0)"
proof -
  have u: "unat (tx_batch_i s + 1) = Suc (unat (tx_batch_i s))"
    using assms(3) by (rule unat_succ_below)
  from assms u show ?thesis
    by (auto simp add: tx_burst_now_st_def Let_def tx_burst_def pkt_of_item_def unat_eq_0)
qed

text \<open>
  With one data packet deferred, the credit return leaves in a burst of two packets, the
  data packet first.
\<close>

theorem tx_burst_now_flushes_batch_witness:
  "in_creator ex_env ex_rpc_deferred \<and> tx_batch_i ex_rpc_deferred < kPostlist ex_env
   \<and> is_expl_cr ex_env ex_rpc_deferred (msgbufs ex_rpc_deferred 2)
   \<and> (\<exists>s'. tx_burst_now_st ex_env ex_rpc_deferred (Some 7) (Some 2) = Inr s'
         \<and> map pkt_of_item (last (transport_tx s'))
             = [(Some 7, Some 1, 0, 64), (Some 7, Some 2, 0, 0)]
         \<and> tx_batch_i s' = 0
         \<and> length (last (transport_tx s')) \<noteq> 1)"
proof -
  have a: "in_creator ex_env ex_rpc_deferred"
    by (rule ex_rpc_deferred_facts)
  have b: "Some (7 :: addr) \<noteq> None"
    by simp
  have c: "tx_batch_i ex_rpc_deferred < kPostlist ex_env"
    by (simp add: ex_rpc_deferred_facts ex_env_def)
  have d: "is_expl_cr ex_env ex_rpc_deferred (msgbufs ex_rpc_deferred 2)
      \<or> is_req_for_resp ex_env ex_rpc_deferred (msgbufs ex_rpc_deferred 2)"
    by (simp add: ex_rpc_deferred_facts)
  from tx_burst_now_flushes_batch [OF a b c d]
  obtain s' it where r: "tx_burst_now_st ex_env ex_rpc_deferred (Some 7) (Some 2) = Inr s'"
    and t: "transport_tx s' = transport_tx ex_rpc_deferred
        @ [map (tx_burst_arr ex_rpc_deferred) [0..<unat (tx_batch_i ex_rpc_deferred)] @ [it]]"
    and p: "pkt_of_item it = (Some 7, Some 2, 0, 0)"
    and z: "tx_batch_i s' = 0"
    and l: "length (last (transport_tx s')) = 1 \<longleftrightarrow> tx_batch_i ex_rpc_deferred = 0"
    by blast
  have "map pkt_of_item (last (transport_tx s')) = [(Some 7, Some 1, 0, 64), (Some 7, Some 2, 0, 0)]"
    using t p by (simp add: ex_rpc_deferred_facts)
  moreover have "length (last (transport_tx s')) \<noteq> 1"
    using l by (simp add: ex_rpc_deferred_facts)
  ultimately show ?thesis
    using a c r z by (simp add: ex_rpc_deferred_facts)
qed

text \<open>
  Claim C3 as first stated says that the burst handed to \<^verbatim>\<open>tx_burst\<close> contains exactly
  the one control packet. After one data packet has been deferred, the burst of the
  credit return has two items.
\<close>

theorem tx_burst_now_single_item_counterexample:
  "\<not> isl (tx_burst_now_st ex_env ex_rpc_deferred (Some 7) (Some 2))
   \<and> map pkt_of_item (last (transport_tx
         (projr (tx_burst_now_st ex_env ex_rpc_deferred (Some 7) (Some 2)))))
       = [(Some 7, Some 1, 0, 64), (Some 7, Some 2, 0, 0)]"
  by (simp add: ex_rpc_deferred_def run_defs ex_defs pkt_of_item_def upt_rec)

text \<open>
  Claim C9. \<^verbatim>\<open>tx_burst_now_st\<close> assigns the routing info, the message buffer, offset 0
  and 0 data bytes of the batch entry at \<^verbatim>\<open>tx_batch_i\<close>, and leaves its drop flag as it
  was: the control packet, which is the last item of the burst handed to the transport,
  carries whatever drop value an earlier packet left in that entry. No other entry and
  no fault state changes.
\<close>

theorem tx_burst_now_keeps_drop:
  assumes "in_creator e s" and "rinfo \<noteq> None" and "tx_batch_i s < kPostlist e"
    and "is_expl_cr e s (msgbufs s mp) \<or> is_req_for_resp e s (msgbufs s mp)"
  shows "\<exists>s'. tx_burst_now_st e s rinfo (Some mp) = Inr s'
           \<and> routing_info (tx_burst_arr s' (unat (tx_batch_i s))) = rinfo
           \<and> msg_buffer (tx_burst_arr s' (unat (tx_batch_i s))) = Some mp
           \<and> offset (tx_burst_arr s' (unat (tx_batch_i s))) = 0
           \<and> data_bytes (tx_burst_arr s' (unat (tx_batch_i s))) = 0
           \<and> drop_flag (tx_burst_arr s' (unat (tx_batch_i s)))
               = drop_flag (tx_burst_arr s (unat (tx_batch_i s)))
           \<and> last (last (transport_tx s')) = tx_burst_arr s' (unat (tx_batch_i s))
           \<and> (\<forall>j. j \<noteq> unat (tx_batch_i s) \<longrightarrow> tx_burst_arr s' j = tx_burst_arr s j)
           \<and> faults s' = faults s"
proof -
  have u: "unat (tx_batch_i s + 1) = Suc (unat (tx_batch_i s))"
    using assms(3) by (rule unat_succ_below)
  from assms u show ?thesis
    by (auto simp add: tx_burst_now_st_def Let_def tx_burst_def)
qed

text \<open>
  After a local drop armed with countdown 0 and two data packets, entry 0 of the batch
  array still has its drop flag set although the fault is cleared; a credit return sent
  now goes out with the drop flag set.
\<close>

theorem tx_burst_now_keeps_drop_witness:
  "in_creator ex_env ex_rpc_stale \<and> tx_batch_i ex_rpc_stale < kPostlist ex_env
   \<and> is_expl_cr ex_env ex_rpc_stale (msgbufs ex_rpc_stale 2)
   \<and> \<not> drop_tx_local (faults ex_rpc_stale)
   \<and> (\<exists>s'. tx_burst_now_st ex_env ex_rpc_stale (Some 7) (Some 2) = Inr s'
         \<and> pkt_of_item (last (last (transport_tx s'))) = (Some 7, Some 2, 0, 0)
         \<and> drop_flag (last (last (transport_tx s'))))"
proof -
  have a: "in_creator ex_env ex_rpc_stale"
    by (rule ex_rpc_stale_facts)
  have b: "Some (7 :: addr) \<noteq> None"
    by simp
  have c: "tx_batch_i ex_rpc_stale < kPostlist ex_env"
    by (simp add: ex_rpc_stale_facts ex_env_def)
  have d: "is_expl_cr ex_env ex_rpc_stale (msgbufs ex_rpc_stale 2)
      \<or> is_req_for_resp ex_env ex_rpc_stale (msgbufs ex_rpc_stale 2)"
    by (simp add: ex_rpc_stale_facts)
  have z: "unat (tx_batch_i ex_rpc_stale) = 0"
    by (simp add: ex_rpc_stale_facts)
  from tx_burst_now_keeps_drop [OF a b c d] z
  obtain s' where r: "tx_burst_now_st ex_env ex_rpc_stale (Some 7) (Some 2) = Inr s'"
    and f: "routing_info (tx_burst_arr s' 0) = Some 7" "msg_buffer (tx_burst_arr s' 0) = Some 2"
      "offset (tx_burst_arr s' 0) = 0" "data_bytes (tx_burst_arr s' 0) = 0"
    and k: "drop_flag (tx_burst_arr s' 0) = drop_flag (tx_burst_arr ex_rpc_stale 0)"
    and l: "last (last (transport_tx s')) = tx_burst_arr s' 0"
    by auto
  from f l have p: "pkt_of_item (last (last (transport_tx s'))) = (Some 7, Some 2, 0, 0)"
    by (simp add: pkt_of_item_def)
  from k l have q: "drop_flag (last (last (transport_tx s')))"
    by (simp add: ex_rpc_stale_facts)
  from a c r p q show ?thesis
    by (simp add: ex_rpc_stale_facts)
qed

text \<open>
  Claim C10. Every successful call of \<^verbatim>\<open>enqueue_pkt_tx_burst_st\<close> (its assertions hold)
  adds exactly one to \<^verbatim>\<open>pkts_queued\<close> of the message buffer it was given, whatever the
  fault state and whatever drop flag the packet gets, and changes no other message buffer.
\<close>

theorem enqueue_bumps_pkts_queued:
  assumes "in_creator e s" and "rinfo \<noteq> None" and "tx_batch_i s < kPostlist e"
    and "kFaultInjection e \<or> \<not> drop_flag (tx_burst_arr s (unat (tx_batch_i s)))"
  shows "\<exists>s'. enqueue_pkt_tx_burst_st e s rinfo (Some mp) off dbytes = Inr s'
           \<and> pkts_queued (msgbufs s' mp) = pkts_queued (msgbufs s mp) + 1
           \<and> (\<forall>q. q \<noteq> mp \<longrightarrow> msgbufs s' q = msgbufs s q)"
  using assms
  by (auto simp add: enqueue_pkt_tx_burst_st_def Let_def upd_msgbuf_def word_gt_0)

text \<open>A packet that the fault injector marks as dropped still counts as queued.\<close>

theorem enqueue_bumps_pkts_queued_witness:
  "in_creator ex_env ex_rpc_armed0 \<and> tx_batch_i ex_rpc_armed0 < kPostlist ex_env
   \<and> kFaultInjection ex_env
   \<and> (\<exists>s'. enqueue_pkt_tx_burst_st ex_env ex_rpc_armed0 (Some 7) (Some 1) 0 64 = Inr s'
         \<and> drop_flag (tx_burst_arr s' 0)
         \<and> pkts_queued (msgbufs s' 1) = 1)"
proof -
  have a: "in_creator ex_env ex_rpc_armed0"
    by (rule ex_rpc_armed0_facts)
  have b: "Some (7 :: addr) \<noteq> None"
    by simp
  have c: "tx_batch_i ex_rpc_armed0 < kPostlist ex_env"
    by (simp add: ex_rpc_armed0_facts ex_env_def)
  have f: "kFaultInjection ex_env"
    by (simp add: ex_env_def)
  then have d: "kFaultInjection ex_env
      \<or> \<not> drop_flag (tx_burst_arr ex_rpc_armed0 (unat (tx_batch_i ex_rpc_armed0)))"
    by simp
  from enqueue_bumps_pkts_queued [OF a b c d, of 1 0 64]
  obtain s' where r: "enqueue_pkt_tx_burst_st ex_env ex_rpc_armed0 (Some 7) (Some 1) 0 64 = Inr s'"
    and q: "pkts_queued (msgbufs s' 1) = pkts_queued (msgbufs ex_rpc_armed0 1) + 1"
    by blast
  have "drop_flag (tx_burst_arr (projr (enqueue_pkt_tx_burst_st ex_env ex_rpc_armed0
      (Some 7) (Some 1) 0 64)) 0)"
    by (simp add: ex_rpc_armed0_def run_defs ex_defs)
  with r have dr: "drop_flag (tx_burst_arr s' 0)"
    by simp
  from q have q1: "pkts_queued (msgbufs s' 1) = 1"
    unfolding ex_rpc_armed0_facts(5) by simp
  from a c f r dr q1 show ?thesis
    by simp
qed

subsection \<open>Claim about fault injection\<close>

text \<open>
  Claim C6. Let the local drop be armed with countdown \<open>n\<close> (fault injection compiled
  in). Then any run of packets enqueued through \<^verbatim>\<open>enqueue_pkt_tx_burst_st\<close> succeeds,
  the packets join the transmit stream in order, and the drop flag of the packet at
  position \<open>j\<close> (counting from 0) is set exactly when \<open>j = n\<close>: the \<open>(n+1)\<close>-th packet
  and no other. The fault stays armed exactly as long as at most \<open>n\<close> packets were enqueued.
\<close>

theorem drop_tx_local_one_shot:
  assumes "kFaultInjection e" and "in_creator e s" and "tx_batch_i s < kPostlist e"
    and "drop_tx_local (faults s)" and "drop_tx_local_countdown (faults s) = n"
    and "\<forall>p \<in> set ps. fst p \<noteq> None \<and> fst (snd p) \<noteq> None"
  shows "\<exists>s' items. enqueue_pkts e s ps = Inr s'
           \<and> tx_stream s' = tx_stream s @ items
           \<and> map pkt_of_item items = ps
           \<and> map drop_flag items = map (\<lambda>j. j = unat n) [0..<length ps]
           \<and> (drop_tx_local (faults s') \<longleftrightarrow> length ps \<le> unat n)"
  using enqueue_pkts_run [OF assms(1) assms(2) assms(3) assms(6)] assms(4) assms(5)
  by simp

text \<open>Armed with countdown 1, three packets: the second one is dropped, the fault is cleared.\<close>

theorem drop_tx_local_one_shot_witness:
  "kFaultInjection ex_env \<and> in_creator ex_env ex_rpc_armed1
   \<and> tx_batch_i ex_rpc_armed1 < kPostlist ex_env
   \<and> drop_tx_local (faults ex_rpc_armed1)
   \<and> drop_tx_local_countdown (faults ex_rpc_armed1) = 1
   \<and> (\<exists>s' items. enqueue_pkts ex_env ex_rpc_armed1 [ex_pkt, ex_pkt, ex_pkt] = Inr s'
         \<and> tx_stream s' = items
         \<and> map drop_flag items = [False, True, False]
         \<and> \<not> drop_tx_local (faults s'))"
proof -
  have f: "kFaultInjection ex_env"
    by (simp add: ex_env_def)
  have a: "in_creator ex_env ex_rpc_armed1"
    by (rule ex_rpc_armed1_facts)
  have c: "tx_batch_i ex_rpc_armed1 < kPostlist ex_env"
    by (simp add: ex_rpc_armed1_facts ex_env_def)
  have d: "drop_tx_local (faults ex_rpc_armed1)"
    by (rule ex_rpc_armed1_facts)
  have n: "drop_tx_local_countdown (faults ex_rpc_armed1) = 1"
    by (rule ex_rpc_armed1_facts)
  have v: "\<forall>p \<in> set [ex_pkt, ex_pkt, ex_pkt]. fst p \<noteq> None \<and> fst (snd p) \<noteq> None"
    by (simp add: ex_pkt_def)
  have u: "[0..<length [ex_pkt, ex_pkt, ex_pkt]] = [0, 1, 2]"
    by (simp add: upt_rec)
  from drop_tx_local_one_shot [OF f a c d n v]
  obtain s' items where r: "enqueue_pkts ex_env ex_rpc_armed1 [ex_pkt, ex_pkt, ex_pkt] = Inr s'"
    and t: "tx_stream s' = tx_stream ex_rpc_armed1 @ items"
    and m: "map drop_flag items = map (\<lambda>j. j = unat (1 :: size_t)) [0..<length [ex_pkt, ex_pkt, ex_pkt]]"
    and o: "drop_tx_local (faults s') \<longleftrightarrow> length [ex_pkt, ex_pkt, ex_pkt] \<le> unat (1 :: size_t)"
    by blast
  from m have "map drop_flag items = [False, True, False]"
    unfolding u by simp
  with f a c d n r t o show ?thesis
    by (simp add: ex_rpc_armed1_facts)
qed

text \<open>
  The countdown is not disturbed by header-only control packets sent in between: in any
  run of calls to \<^verbatim>\<open>enqueue_pkt_tx_burst_st\<close> and \<^verbatim>\<open>tx_burst_now_st\<close> that passes its
  assertions, the drop flags written for the enqueued packets follow the same pattern.
\<close>

lemma interleaved_calls_keep_countdown:
  assumes "kFaultInjection e" and "tx_calls e s cs = Inr (ds, s')"
  shows "ds = map (\<lambda>j. drop_tx_local (faults s) \<and> j = unat (drop_tx_local_countdown (faults s)))
               [0..<length ds]
       \<and> (drop_tx_local (faults s') \<longleftrightarrow>
            drop_tx_local (faults s) \<and> length ds \<le> unat (drop_tx_local_countdown (faults s)))"
  using assms(2)
proof (induction cs arbitrary: s ds)
  case Nil
  then show ?case by simp
next
  case (Cons c cs)
  show ?case
  proof (cases c)
    case (Enqueue rinfo txm off dbytes)
    with Cons.prems obtain s1 ds1 where s1: "enqueue_pkt_tx_burst_st e s rinfo txm off dbytes = Inr s1"
      and rest: "tx_calls e s1 cs = Inr (ds1, s')"
      and ds: "ds = drop_flag (tx_burst_arr s1 (unat (tx_batch_i s))) # ds1"
      by (auto split: sum.splits)
    note st = enqueue_Inr_faults [OF assms(1) s1]
    note ih = Cons.IH [OF rest]
    have d: "ds = map (\<lambda>j. drop_tx_local (faults s) \<and> j = unat (drop_tx_local_countdown (faults s)))
        [0..<length ds]"
      using ds st ih drop_pattern_step [of "faults s" "length ds1"] by simp
    have f: "drop_tx_local (faults s') \<longleftrightarrow>
        drop_tx_local (faults s) \<and> length ds \<le> unat (drop_tx_local_countdown (faults s))"
      using ds st ih armed_step [of "faults s" "length ds1"] by simp
    from d f show ?thesis
      by (intro conjI)
  next
    case (BurstNow rinfo txm)
    with Cons.prems obtain s1 where s1: "tx_burst_now_st e s rinfo txm = Inr s1"
      and rest: "tx_calls e s1 cs = Inr (ds, s')"
      by (auto split: sum.splits)
    from Cons.IH [OF rest] burst_now_Inr_faults [OF s1] show ?thesis
      by simp
  qed
qed

subsection \<open>Claims about slot teardown\<close>

text \<open>
  Claim C4. \<^verbatim>\<open>bury_sslot_tx_msgbuf\<close> hands the slot's TX buffer to the allocator's
  \<^verbatim>\<open>free_buf\<close> exactly when the slot has one and it is dynamic, and
  \<^verbatim>\<open>bury_sslot_rx_msgbuf\<close> does so for the RX buffer exactly when it is dynamic; a
  fake buffer is never freed, and \<^verbatim>\<open>bury_sslot_rx_msgbuf_nofree\<close> succeeds only on a
  buffer that is not dynamic and frees nothing. In every case the slot's \<^verbatim>\<open>tx_msgbuf\<close>,
  respectively \<^verbatim>\<open>rx_msgbuf.buf\<close>, is null afterwards. The last three parts say when
  each call passes its assertions.
\<close>

theorem bury_frees_iff_dynamic:
  "(bury_sslot_tx_msgbuf e s (Some sp) = Inr s1 \<longrightarrow>
      tx_msgbuf (sslots s1 sp) = None
      \<and> free_log (huge_alloc s1) = free_log (huge_alloc s) @
           (case tx_msgbuf (sslots s sp) of
              None \<Rightarrow> []
            | Some mp \<Rightarrow> if is_dynamic (msgbufs s mp) then [buffer (msgbufs s mp)] else []))
   \<and> (bury_sslot_rx_msgbuf e s (Some sp) = Inr s2 \<longrightarrow>
      MsgBuffer.buf (rx_msgbuf (sslots s2 sp)) = None
      \<and> free_log (huge_alloc s2) = free_log (huge_alloc s) @
           (if is_dynamic (rx_msgbuf (sslots s sp)) then [buffer (rx_msgbuf (sslots s sp))]
            else []))
   \<and> (bury_sslot_rx_msgbuf_nofree s (Some sp) = Inr s3 \<longrightarrow>
      \<not> is_dynamic (rx_msgbuf (sslots s sp))
      \<and> MsgBuffer.buf (rx_msgbuf (sslots s3 sp)) = None
      \<and> free_log (huge_alloc s3) = free_log (huge_alloc s))
   \<and> ((\<exists>s'. bury_sslot_tx_msgbuf e s (Some sp) = Inr s') \<longleftrightarrow>
        (case tx_msgbuf (sslots s sp) of
           None \<Rightarrow> True
         | Some mp \<Rightarrow> is_dynamic (msgbufs s mp) \<longrightarrow>
             MsgBuffer.buf (msgbufs s mp) \<noteq> None \<and> check_magic e s (msgbufs s mp)))
   \<and> ((\<exists>s'. bury_sslot_rx_msgbuf e s (Some sp) = Inr s') \<longleftrightarrow>
        (is_dynamic (rx_msgbuf (sslots s sp)) \<longrightarrow>
           MsgBuffer.buf (rx_msgbuf (sslots s sp)) \<noteq> None
           \<and> check_magic e s (rx_msgbuf (sslots s sp))))
   \<and> ((\<exists>s'. bury_sslot_rx_msgbuf_nofree s (Some sp) = Inr s') \<longleftrightarrow>
        \<not> is_dynamic (rx_msgbuf (sslots s sp)))"
proof -
  have tx: "bury_sslot_tx_msgbuf e s (Some sp) = Inr s1 \<longrightarrow>
      tx_msgbuf (sslots s1 sp) = None
      \<and> free_log (huge_alloc s1) = free_log (huge_alloc s) @
           (case tx_msgbuf (sslots s sp) of
              None \<Rightarrow> []
            | Some mp \<Rightarrow> if is_dynamic (msgbufs s mp) then [buffer (msgbufs s mp)] else [])"
    using bury_tx_result [of e s sp s1] by simp
  have rx: "bury_sslot_rx_msgbuf e s (Some sp) = Inr s2 \<longrightarrow>
      MsgBuffer.buf (rx_msgbuf (sslots s2 sp)) = None
      \<and> free_log (huge_alloc s2) = free_log (huge_alloc s) @
           (if is_dynamic (rx_msgbuf (sslots s sp)) then [buffer (rx_msgbuf (sslots s sp))]
            else [])"
    using bury_rx_result [of e s sp s2] by simp
  have nf: "bury_sslot_rx_msgbuf_nofree s (Some sp) = Inr s3 \<longrightarrow>
      \<not> is_dynamic (rx_msgbuf (sslots s sp))
      \<and> MsgBuffer.buf (rx_msgbuf (sslots s3 sp)) = None
      \<and> free_log (huge_alloc s3) = free_log (huge_alloc s)"
    using bury_rx_nofree_result [of s sp s3] by simp
  from tx rx nf bury_tx_succeeds [of e s sp] bury_rx_succeeds [of e s sp]
    bury_rx_nofree_succeeds [of s sp]
  show ?thesis
    by (intro conjI)
qed

text \<open>
  On the concrete endpoint: the dynamic request buffer of slot 2 and the dynamic response
  buffer of slot 1 are freed, the fake response buffer of slot 2 is not, and burying the
  dynamic response buffer of slot 1 without freeing fails its assertion.
\<close>

theorem bury_frees_iff_dynamic_witness:
  "(\<exists>s1. bury_sslot_tx_msgbuf ex_env ex_rpc (Some 2) = Inr s1
       \<and> tx_msgbuf (sslots s1 2) = None
       \<and> map Buffer.buf (free_log (huge_alloc s1)) = [Some 12288])
   \<and> (\<exists>s2. bury_sslot_rx_msgbuf ex_env ex_rpc (Some 1) = Inr s2
       \<and> MsgBuffer.buf (rx_msgbuf (sslots s2 1)) = None
       \<and> map Buffer.buf (free_log (huge_alloc s2)) = [Some 4096])
   \<and> (\<exists>s2. bury_sslot_rx_msgbuf ex_env ex_rpc (Some 2) = Inr s2
       \<and> MsgBuffer.buf (rx_msgbuf (sslots s2 2)) = None
       \<and> free_log (huge_alloc s2) = [])
   \<and> (\<exists>s3. bury_sslot_rx_msgbuf_nofree ex_rpc (Some 2) = Inr s3
       \<and> MsgBuffer.buf (rx_msgbuf (sslots s3 2)) = None
       \<and> free_log (huge_alloc s3) = [])
   \<and> bury_sslot_rx_msgbuf_nofree ex_rpc (Some 1) = Inl assertion_failed"
proof -
  have tx_ok: "case tx_msgbuf (sslots ex_rpc 2) of
      None \<Rightarrow> True
    | Some mp \<Rightarrow> is_dynamic (msgbufs ex_rpc mp) \<longrightarrow>
        MsgBuffer.buf (msgbufs ex_rpc mp) \<noteq> None \<and> check_magic ex_env ex_rpc (msgbufs ex_rpc mp)"
    by (simp add: check_magic_def get_pkthdr_0_def is_dynamic_def ex_defs)
  have rx1_ok: "is_dynamic (rx_msgbuf (sslots ex_rpc 1)) \<longrightarrow>
      MsgBuffer.buf (rx_msgbuf (sslots ex_rpc 1)) \<noteq> None
      \<and> check_magic ex_env ex_rpc (rx_msgbuf (sslots ex_rpc 1))"
    by (simp add: check_magic_def get_pkthdr_0_def is_dynamic_def ex_defs)
  have rx2_fake: "\<not> is_dynamic (rx_msgbuf (sslots ex_rpc 2))"
    by (simp add: is_dynamic_def ex_defs)
  have rx1_dyn: "is_dynamic (rx_msgbuf (sslots ex_rpc 1))"
    by (simp add: is_dynamic_def ex_defs)
  note on2 = bury_frees_iff_dynamic [of ex_env ex_rpc 2]
  note on1 = bury_frees_iff_dynamic [of ex_env ex_rpc 1]
  have "\<exists>s'. bury_sslot_tx_msgbuf ex_env ex_rpc (Some 2) = Inr s'"
    by (rule iffD2 [OF on2 [THEN conjunct2, THEN conjunct2, THEN conjunct2, THEN conjunct1] tx_ok])
  then obtain s1 where t1: "bury_sslot_tx_msgbuf ex_env ex_rpc (Some 2) = Inr s1" ..
  have "\<exists>s'. bury_sslot_rx_msgbuf ex_env ex_rpc (Some 1) = Inr s'"
    by (rule iffD2 [OF on1 [THEN conjunct2, THEN conjunct2, THEN conjunct2, THEN conjunct2,
          THEN conjunct1] rx1_ok])
  then obtain s2 where t2: "bury_sslot_rx_msgbuf ex_env ex_rpc (Some 1) = Inr s2" ..
  have "\<exists>s'. bury_sslot_rx_msgbuf ex_env ex_rpc (Some 2) = Inr s'"
    using rx2_fake
    by (simp add: on2 [THEN conjunct2, THEN conjunct2, THEN conjunct2, THEN conjunct2,
          THEN conjunct1])
  then obtain s2' where t2': "bury_sslot_rx_msgbuf ex_env ex_rpc (Some 2) = Inr s2'" ..
  have "\<exists>s'. bury_sslot_rx_msgbuf_nofree ex_rpc (Some 2) = Inr s'"
    by (rule iffD2 [OF on2 [THEN conjunct2, THEN conjunct2, THEN conjunct2, THEN conjunct2,
          THEN conjunct2] rx2_fake])
  then obtain s3 where t3: "bury_sslot_rx_msgbuf_nofree ex_rpc (Some 2) = Inr s3" ..
  from t1 bury_frees_iff_dynamic [of ex_env ex_rpc 2 s1, THEN conjunct1]
  have c1: "tx_msgbuf (sslots s1 2) = None
      \<and> map Buffer.buf (free_log (huge_alloc s1)) = [Some 12288]"
    by (simp add: is_dynamic_def ex_defs)
  from t2 bury_frees_iff_dynamic [of ex_env ex_rpc 1 _ s2, THEN conjunct2, THEN conjunct1]
  have c2: "MsgBuffer.buf (rx_msgbuf (sslots s2 1)) = None
      \<and> map Buffer.buf (free_log (huge_alloc s2)) = [Some 4096]"
    by (simp add: is_dynamic_def ex_defs)
  from t2' bury_frees_iff_dynamic [of ex_env ex_rpc 2 _ s2', THEN conjunct2, THEN conjunct1]
  have c2': "MsgBuffer.buf (rx_msgbuf (sslots s2' 2)) = None \<and> free_log (huge_alloc s2') = []"
    by (simp add: is_dynamic_def ex_defs)
  from t3 bury_frees_iff_dynamic [of ex_env ex_rpc 2 _ _ s3, THEN conjunct2, THEN conjunct2,
      THEN conjunct1]
  have c3: "MsgBuffer.buf (rx_msgbuf (sslots s3 2)) = None \<and> free_log (huge_alloc s3) = []"
    by (simp add: is_dynamic_def ex_defs)
  have c4: "bury_sslot_rx_msgbuf_nofree ex_rpc (Some 1) = Inl assertion_failed"
    using rx1_dyn by (simp add: bury_sslot_rx_msgbuf_nofree_def)
  have e1: "\<exists>s1. bury_sslot_tx_msgbuf ex_env ex_rpc (Some 2) = Inr s1
      \<and> tx_msgbuf (sslots s1 2) = None
      \<and> map Buffer.buf (free_log (huge_alloc s1)) = [Some 12288]"
    using t1 c1 by (intro exI [of _ s1]) simp
  have e2: "\<exists>s2. bury_sslot_rx_msgbuf ex_env ex_rpc (Some 1) = Inr s2
      \<and> MsgBuffer.buf (rx_msgbuf (sslots s2 1)) = None
      \<and> map Buffer.buf (free_log (huge_alloc s2)) = [Some 4096]"
    using t2 c2 by (intro exI [of _ s2]) simp
  have e2': "\<exists>s2. bury_sslot_rx_msgbuf ex_env ex_rpc (Some 2) = Inr s2
      \<and> MsgBuffer.buf (rx_msgbuf (sslots s2 2)) = None
      \<and> free_log (huge_alloc s2) = []"
    using t2' c2' by (intro exI [of _ s2']) simp
  have e3: "\<exists>s3. bury_sslot_rx_msgbuf_nofree ex_rpc (Some 2) = Inr s3
      \<and> MsgBuffer.buf (rx_msgbuf (sslots s3 2)) = None
      \<and> free_log (huge_alloc s3) = []"
    using t3 c3 by (intro exI [of _ s3]) simp
  from e1 e2 e2' e3 c4 show ?thesis
    by (intro conjI)
qed

text \<open>
  Claim C7. For a slot of a client session whose \<^verbatim>\<open>tx_msgbuf\<close> is already null and
  whose RX buffer is valid, \<^verbatim>\<open>release_respone\<close> succeeds, buries the RX buffer (it is
  handed to \<^verbatim>\<open>free_buf\<close> exactly when it is dynamic, and its payload pointer is null
  afterwards) and appends the slot's index to the free-slot list of its session.
\<close>

theorem release_respone_buries_rx:
  assumes "tx_msgbuf (sslots s sp) = None"
    and "MsgBuffer.buf (rx_msgbuf (sslots s sp)) \<noteq> None"
    and "check_magic e s (rx_msgbuf (sslots s sp))"
    and "session (sslots s sp) = Some sn"
    and "is_client (sessions s sn)"
  shows "\<exists>s'. release_respone e s (Some sp) = Inr s'
           \<and> MsgBuffer.buf (rx_msgbuf (sslots s' sp)) = None
           \<and> free_log (huge_alloc s') = free_log (huge_alloc s) @
                (if is_dynamic (rx_msgbuf (sslots s sp))
                 then [buffer (rx_msgbuf (sslots s sp))] else [])
           \<and> sslot_free_vec (sessions s' sn) =
                sslot_free_vec (sessions s sn) @ [index (sslots s sp)]
           \<and> tx_msgbuf (sslots s' sp) = None"
proof -
  from assms(2,3) bury_rx_succeeds [of e s sp]
  obtain s1 where s1: "bury_sslot_rx_msgbuf e s (Some sp) = Inr s1"
    by auto
  note r = bury_rx_result [OF s1]
  from assms s1 r have "release_respone e s (Some sp) =
      Inr (upd_session s1 sn (\<lambda>x. x\<lparr>sslot_free_vec := sslot_free_vec x @ [index (sslots s1 sp)]\<rparr>))"
    by (simp add: release_respone_def)
  with assms r show ?thesis
    by (simp add: upd_session_def)
qed

text \<open>Slot 1 of the concrete endpoint: its response buffer is freed and index 3 is free again.\<close>

theorem release_respone_buries_rx_witness:
  "tx_msgbuf (sslots ex_rpc 1) = None
   \<and> MsgBuffer.buf (rx_msgbuf (sslots ex_rpc 1)) \<noteq> None
   \<and> check_magic ex_env ex_rpc (rx_msgbuf (sslots ex_rpc 1))
   \<and> session (sslots ex_rpc 1) = Some 1
   \<and> is_client (sessions ex_rpc 1)
   \<and> is_dynamic (rx_msgbuf (sslots ex_rpc 1))
   \<and> (\<exists>s'. release_respone ex_env ex_rpc (Some 1) = Inr s'
         \<and> MsgBuffer.buf (rx_msgbuf (sslots s' 1)) = None
         \<and> map Buffer.buf (free_log (huge_alloc s')) = [Some 4096]
         \<and> sslot_free_vec (sessions s' 1) = [0, 1, 3])"
proof -
  have a: "tx_msgbuf (sslots ex_rpc 1) = None"
    by (simp add: ex_defs)
  have b: "MsgBuffer.buf (rx_msgbuf (sslots ex_rpc 1)) \<noteq> None"
    by (simp add: ex_defs)
  have c: "check_magic ex_env ex_rpc (rx_msgbuf (sslots ex_rpc 1))"
    by (simp add: check_magic_def get_pkthdr_0_def ex_defs)
  have d: "session (sslots ex_rpc 1) = Some 1"
    by (simp add: ex_defs)
  have e: "is_client (sessions ex_rpc 1)"
    by (simp add: is_client_def ex_defs)
  have f: "is_dynamic (rx_msgbuf (sslots ex_rpc 1))"
    by (simp add: is_dynamic_def ex_defs)
  from release_respone_buries_rx [OF a b c d e]
  obtain s' where r: "release_respone ex_env ex_rpc (Some 1) = Inr s'"
    and n: "MsgBuffer.buf (rx_msgbuf (sslots s' 1)) = None"
    and l: "free_log (huge_alloc s') = free_log (huge_alloc ex_rpc) @
        (if is_dynamic (rx_msgbuf (sslots ex_rpc 1)) then [buffer (rx_msgbuf (sslots ex_rpc 1))]
         else [])"
    and v: "sslot_free_vec (sessions s' 1) = sslot_free_vec (sessions ex_rpc 1) @ [index (sslots ex_rpc 1)]"
    by blast
  from l f have l1: "map Buffer.buf (free_log (huge_alloc s')) = [Some 4096]"
    by (simp add: ex_defs)
  from v have v1: "sslot_free_vec (sessions s' 1) = [0, 1, 3]"
    by (simp add: ex_defs)
  from a b c d e f r n l1 v1 show ?thesis
    by simp
qed

subsection \<open>Claim about the maximum message size\<close>

text \<open>
  Claim C8. \<^verbatim>\<open>kMaxMsgSize\<close> is \<^verbatim>\<open>kMaxClassSize\<close> minus
  \<^verbatim>\<open>(kMaxClassSize / kMaxDataPerPkt) * sizeof(pkthdr_t)\<close>. For every choice of the
  constants that passes the two static assertions, it is at most \<open>2 ^ kMsgSizeBits\<close>
  bytes and at most \<open>2 ^ kPktNumBits\<close> packets of \<^verbatim>\<open>kMaxDataPerPkt\<close> bytes, as natural
  numbers; and when the header slots fit into the largest class, payload and header slots
  together fill the largest class exactly.
\<close>

theorem kMaxMsgSize_fits_header_fields:
  assumes "Rpc_static_asserts e"
  shows "kMaxMsgSize e =
           kMaxClassSize e - (kMaxClassSize e div kMaxDataPerPkt e) * sizeof_pkthdr_t e
         \<and> unat (kMaxMsgSize e) \<le> 2 ^ kMsgSizeBits e
         \<and> unat (kMaxMsgSize e) \<le> 2 ^ kPktNumBits e * unat (kMaxDataPerPkt e)
         \<and> ((unat (kMaxClassSize e) div unat (kMaxDataPerPkt e)) * unat (sizeof_pkthdr_t e)
               \<le> unat (kMaxClassSize e) \<longrightarrow>
             unat (kMaxMsgSize e)
               + (unat (kMaxClassSize e) div unat (kMaxDataPerPkt e)) * unat (sizeof_pkthdr_t e)
               = unat (kMaxClassSize e))"
proof -
  from assms have bits: "kMsgSizeBits e < 64" "kPktNumBits e < 64"
    and a1: "kMaxMsgSize e \<le> push_bit (kMsgSizeBits e) (1 :: size_t)"
    and a2: "kMaxMsgSize e \<le> push_bit (kPktNumBits e) (1 :: size_t) * kMaxDataPerPkt e"
    by (simp_all add: Rpc_static_asserts_def)
  have b1: "unat (kMaxMsgSize e) \<le> 2 ^ kMsgSizeBits e"
    using a1 unat_shift_one [OF bits(1)] by (simp add: word_le_nat_alt)
  have "unat (kMaxMsgSize e) \<le> unat (push_bit (kPktNumBits e) (1 :: size_t) * kMaxDataPerPkt e)"
    using a2 by (simp add: word_le_nat_alt)
  also have "\<dots> \<le> unat (push_bit (kPktNumBits e) (1 :: size_t)) * unat (kMaxDataPerPkt e)"
    by (rule unat_mult_le)
  finally have b2: "unat (kMaxMsgSize e) \<le> 2 ^ kPktNumBits e * unat (kMaxDataPerPkt e)"
    using unat_shift_one [OF bits(2)] by simp
  have b3: "unat (kMaxMsgSize e)
      + (unat (kMaxClassSize e) div unat (kMaxDataPerPkt e)) * unat (sizeof_pkthdr_t e)
      = unat (kMaxClassSize e)"
    if fit: "(unat (kMaxClassSize e) div unat (kMaxDataPerPkt e)) * unat (sizeof_pkthdr_t e)
      \<le> unat (kMaxClassSize e)"
  proof -
    let ?q = "kMaxClassSize e div kMaxDataPerPkt e"
    have "unat (kMaxClassSize e) < 2 ^ 64"
      using unsigned_less [of "kMaxClassSize e", where ?'a = nat] by simp
    with fit have "unat ?q * unat (sizeof_pkthdr_t e) < 2 ^ LENGTH(64)"
      by (simp add: unat_div)
    then have m: "unat (?q * sizeof_pkthdr_t e) = unat ?q * unat (sizeof_pkthdr_t e)"
      using unat_mult_lem [of ?q "sizeof_pkthdr_t e"] by simp
    with fit have le: "?q * sizeof_pkthdr_t e \<le> kMaxClassSize e"
      by (simp add: word_le_nat_alt unat_div)
    have "unat (kMaxClassSize e - ?q * sizeof_pkthdr_t e)
        = unat (kMaxClassSize e) - unat (?q * sizeof_pkthdr_t e)"
      using le by (rule unat_sub)
    with m fit show ?thesis
      by (simp add: kMaxMsgSize_def unat_div)
  qed
  from b1 b2 b3 show ?thesis
    by (simp add: kMaxMsgSize_def)
qed

text \<open>
  With an 8 MiB class, 1024 data bytes per packet, 16-byte headers, 24 size bits and 13
  packet-number bits, the maximum is 8388608 - 8192 * 16 = 8257536 bytes.
\<close>

theorem kMaxMsgSize_fits_header_fields_witness:
  "Rpc_static_asserts ex_env
   \<and> unat (kMaxMsgSize ex_env) = 8257536
   \<and> unat (kMaxMsgSize ex_env) \<le> 2 ^ kMsgSizeBits ex_env
   \<and> unat (kMaxMsgSize ex_env) \<le> 2 ^ kPktNumBits ex_env * unat (kMaxDataPerPkt ex_env)
   \<and> unat (kMaxMsgSize ex_env)
       + (unat (kMaxClassSize ex_env) div unat (kMaxDataPerPkt ex_env)) * unat (sizeof_pkthdr_t ex_env)
       = unat (kMaxClassSize ex_env)"
proof -
  have v: "kMaxMsgSize ex_env = 8257536"
    by (simp add: kMaxMsgSize_def ex_env_def)
  have a: "Rpc_static_asserts ex_env"
    unfolding Rpc_static_asserts_def v by (simp add: ex_env_def push_bit_eq_mult)
  have fit: "(unat (kMaxClassSize ex_env) div unat (kMaxDataPerPkt ex_env))
      * unat (sizeof_pkthdr_t ex_env) \<le> unat (kMaxClassSize ex_env)"
    by (simp add: ex_env_def)
  from kMaxMsgSize_fits_header_fields [OF a] fit a v show ?thesis
    by simp
qed

end
